theory Spec2Isabelle
  imports Complex_Main "HOL-Library.Multiset" "HOL-Library.Sublist" "HOL-Library.Log_Nat"
begin

section \<open>Data model\<close>

text \<open>
  The program is \<^verbatim>\<open>src/index.ts\<close>. Strings are sequences of ASCII characters; a field or
  argument of type \<^verbatim>\<open>T | null\<close> (or possibly \<^verbatim>\<open>undefined\<close>) is an option.
\<close>

text \<open>
  The persisted record (interface \<^verbatim>\<open>Article\<close>). The engagement counters are JavaScript
  numbers; they are produced by \<^verbatim>\<open>Math.round\<close> and are modelled as integers.
\<close>

record Article =
  url :: "string option"
  title :: "string option"
  createdAt :: string
  claps :: "int option"
  comments :: "int option"
  tag :: string

text \<open>
  \<^verbatim>\<open>mergeArticles\<close> assigns to fields of objects that are shared between an array and
  a \<^verbatim>\<open>Map\<close>, so article objects live in an explicit store: a reference is an address,
  an array of articles is a list of references.
\<close>

type_synonym ref = nat
type_synonym heap = "ref \<Rightarrow> Article"

record MergeResult =
  merged :: "ref list"
  newCount :: nat
  updatedCount :: nat

text \<open>
  One extracted candidate (interface \<^verbatim>\<open>RawArticle\<close>); the fields it shares with
  \<^verbatim>\<open>Article\<close> carry the prefix \<open>raw_\<close>.
\<close>

record RawArticle =
  raw_url :: "string option"
  raw_title :: "string option"
  datetime :: "string option"
  timeLabel :: "string option"
  raw_claps :: "int option"
  raw_comments :: "int option"

text \<open>
  A JavaScript number: NaN, an infinity, or a finite IEEE 754 double, which is held as the
  rational number that it is. Every operation below that produces a number rounds its
  exact result to a double (\<open>toDouble\<close>). Positive and negative zero are not told apart;
  the program never distinguishes them.
\<close>

datatype number = NaN | Fin rat | PosInf | NegInf

text \<open>
  The options of a run (interface \<^verbatim>\<open>ScrapeOptions\<close> without the browser handle), and
  \<^verbatim>\<open>ParsedArgs\<close>, which adds the tags. \<open>include'\<close> and \<open>exclude'\<close> are the fields
  \<^verbatim>\<open>include\<close> and \<^verbatim>\<open>exclude\<close>.
\<close>

record ScrapeOptions =
  scrolls :: number
  minClaps :: number
  limit :: number
  include' :: "string list"
  exclude' :: "string list"
  headless :: bool

record ParsedArgs = ScrapeOptions +
  tags :: "string list"

section \<open>Library functions of the platform\<close>

text \<open>
  The string and number functions of ECMAScript that the program calls, on ASCII strings.
\<close>

text \<open>\<^verbatim>\<open>s.toLowerCase()\<close>.\<close>

definition toLowerCase :: "string \<Rightarrow> string" where
  "toLowerCase s =
     map (\<lambda>c. case map_of (zip ''ABCDEFGHIJKLMNOPQRSTUVWXYZ'' ''abcdefghijklmnopqrstuvwxyz'') c of
                 Some d \<Rightarrow> d | None \<Rightarrow> c) s"

text \<open>\<^verbatim>\<open>s.includes(k)\<close>: \<open>k\<close> occurs in \<open>s\<close> as a contiguous substring.\<close>

fun includes_str :: "string \<Rightarrow> string \<Rightarrow> bool" where
  "includes_str [] k = (k = [])"
| "includes_str (c # cs) k = (prefix k (c # cs) \<or> includes_str cs k)"

text \<open>\<^verbatim>\<open>s.trim()\<close>, with the ASCII white space and line terminators.\<close>

definition isWhiteSpace :: "char \<Rightarrow> bool" where
  "isWhiteSpace c = (c \<in> set [CHR 0x09, CHR 0x0A, CHR 0x0B, CHR 0x0C, CHR 0x0D, CHR '' ''])"

definition trim :: "string \<Rightarrow> string" where
  "trim s = rev (dropWhile isWhiteSpace (rev (dropWhile isWhiteSpace s)))"

text \<open>\<^verbatim>\<open>s.split(",")\<close>: the pieces between the commas; the empty string gives one empty piece.\<close>

fun split_comma :: "string \<Rightarrow> string list" where
  "split_comma [] = [[]]"
| "split_comma (c # cs) =
     (if c = CHR '','' then [] # split_comma cs
      else (case split_comma cs of [] \<Rightarrow> [[c]] | w # ws \<Rightarrow> (c # w) # ws))"

text \<open>\<^verbatim>\<open>x || d\<close> on strings (the empty string and \<^verbatim>\<open>undefined\<close> are falsy) and on numbers
  (0 and NaN are falsy).\<close>

definition orString :: "string option \<Rightarrow> string \<Rightarrow> string" where
  "orString x d = (case x of None \<Rightarrow> d | Some s \<Rightarrow> if s = [] then d else s)"

definition orNumber :: "number \<Rightarrow> number \<Rightarrow> number" where
  "orNumber x d = (if x = NaN \<or> x = Fin 0 then d else x)"

text \<open>Decimal digits and their value.\<close>

definition isDigit :: "char \<Rightarrow> bool" where
  "isDigit c = (c \<in> set ''0123456789'')"

definition digitsValue :: "string \<Rightarrow> nat" where
  "digitsValue ds = foldl (\<lambda>n c. 10 * n + (of_char c - 48)) 0 ds"

text \<open>
  Rounding to a double (binary64, round to nearest, ties to even). \<open>pow2 k\<close> is the power
  of two with the integer exponent \<open>k\<close>. For a positive \<open>a\<close>, \<open>binadeExponent a\<close> is the
  exponent \<open>e\<close> with \<open>2^e \<le> a < 2^(e+1)\<close>, computed from the bit length of the
  integer part of \<open>a\<close>, or of \<open>1/a\<close> when \<open>a < 1\<close>. The doubles of that binade are the
  multiples of \<open>2^(e-52)\<close>, and below the normal range the multiples of \<open>2^(-1074)\<close>.
  \<open>toDouble q\<close> rounds \<open>q\<close> to the nearest such multiple, to the one with the even
  multiplier when two are equally near, and gives an infinity when the rounded value
  reaches \<open>2^1024\<close>.
\<close>

definition pow2 :: "int \<Rightarrow> rat" where
  "pow2 k = 2 powi k"

definition binadeExponent :: "rat \<Rightarrow> int" where
  "binadeExponent a =
     (if 1 \<le> a then int (floorlog 2 (nat \<lfloor>a\<rfloor>)) - 1
      else - int (floorlog 2 (nat \<lceil>1 / a\<rceil> - 1)))"

definition roundTiesEven :: "rat \<Rightarrow> int" where
  "roundTiesEven m =
     (let f = \<lfloor>m\<rfloor>; d = m - of_int f
      in if d < 1 / 2 then f else if 1 / 2 < d then f + 1 else if even f then f else f + 1)"

definition toDouble :: "rat \<Rightarrow> number" where
  "toDouble q =
     (if q = 0 then Fin 0
      else (let a = \<bar>q\<bar>;
                k = max (binadeExponent a - 52) (- 1074);
                v = of_int (roundTiesEven (a / pow2 k)) * pow2 k
            in if pow2 1024 \<le> v then (if 0 < q then PosInf else NegInf)
               else Fin (if 0 < q then v else - v)))"

text \<open>\<^verbatim>\<open>x * s\<close> for a positive constant \<open>s\<close>: the exact product, rounded.\<close>

definition mulD :: "number \<Rightarrow> rat \<Rightarrow> number" where
  "mulD x s = (case x of Fin q \<Rightarrow> toDouble (q * s) | _ \<Rightarrow> x)"

text \<open>
  \<^verbatim>\<open>Number(s)\<close> on a string (ECMAScript StringToNumber): surrounding white space is
  dropped; the empty string is 0; a StrDecimalLiteral is an optional sign followed by
  \<^verbatim>\<open>Infinity\<close> or by digits with an optional fraction and an optional exponent; a literal
  with the prefix 0x, 0o or 0b (either case) is an unsigned integer in that base; anything
  else is NaN. The result is the double nearest to the mathematical value of the literal,
  so a literal too small for a double is 0 and one too large is Infinity.
\<close>

definition exponentPart :: "string \<Rightarrow> int option" where
  "exponentPart s =
     (case s of
        [] \<Rightarrow> Some 0
      | c # t \<Rightarrow>
          if c = CHR ''e'' \<or> c = CHR ''E'' then
            (let (neg, ds) = (case t of
                                [] \<Rightarrow> (False, [])
                              | d # t' \<Rightarrow> if d = CHR ''-'' then (True, t')
                                          else if d = CHR ''+'' then (False, t') else (False, t))
             in if ds \<noteq> [] \<and> list_all isDigit ds
                then Some (if neg then - int (digitsValue ds) else int (digitsValue ds))
                else None)
          else None)"

definition unsignedDecimal :: "string \<Rightarrow> rat option" where
  "unsignedDecimal s =
     (let ip = takeWhile isDigit s;
          r1 = dropWhile isDigit s;
          (fp, r2) = (case r1 of
                        [] \<Rightarrow> ([], [])
                      | c # t \<Rightarrow> if c = CHR ''.'' then (takeWhile isDigit t, dropWhile isDigit t)
                                 else ([], r1))
      in if ip = [] \<and> fp = [] then None
         else (case exponentPart r2 of
                 None \<Rightarrow> None
               | Some e \<Rightarrow>
                   Some (of_nat (digitsValue (ip @ fp)) / 10 ^ length fp
                         * (if 0 \<le> e then 10 ^ nat e else 1 / 10 ^ nat (- e)))))"

definition radixValue :: "string \<Rightarrow> string \<Rightarrow> nat option" where
  "radixValue digits ds =
     (if ds \<noteq> [] \<and> list_all (\<lambda>c. c \<in> set digits) ds
      then Some (foldl (\<lambda>n c. length digits * n + length (takeWhile (\<lambda>d. d \<noteq> c) digits)) 0 ds)
      else None)"

definition nonDecimal :: "string \<Rightarrow> nat option" where
  "nonDecimal s =
     (case s of
        z # x # ds \<Rightarrow>
          if z \<noteq> CHR ''0'' then None
          else if x = CHR ''x'' \<or> x = CHR ''X'' then radixValue ''0123456789abcdef'' (toLowerCase ds)
          else if x = CHR ''o'' \<or> x = CHR ''O'' then radixValue ''01234567'' ds
          else if x = CHR ''b'' \<or> x = CHR ''B'' then radixValue ''01'' ds
          else None
      | _ \<Rightarrow> None)"

definition Number :: "string \<Rightarrow> number" where
  "Number s =
     (let t = trim s in
      if t = [] then Fin 0
      else (case nonDecimal t of
              Some n \<Rightarrow> toDouble (of_nat n)
            | None \<Rightarrow>
                (let (neg, u) = (if hd t = CHR ''-'' then (True, tl t)
                                 else if hd t = CHR ''+'' then (False, tl t) else (False, t))
                 in if u = ''Infinity'' then (if neg then NegInf else PosInf)
                    else (case unsignedDecimal u of
                            None \<Rightarrow> NaN
                          | Some q \<Rightarrow> toDouble (if neg then - q else q)))))"

text \<open>
  \<^verbatim>\<open>Math.round\<close>: the nearest integer, a tie going up; NaN and the infinities stay. The
  nearest integer of a double is a double, so nothing is rounded twice.
\<close>

definition Math_round :: "number \<Rightarrow> number" where
  "Math_round x = (case x of Fin q \<Rightarrow> Fin (of_int \<lfloor>q + 1 / 2\<rfloor>) | _ \<Rightarrow> x)"

text \<open>\<^verbatim>\<open>a >= b\<close> on numbers: false as soon as one side is NaN.\<close>

fun number_ge :: "number \<Rightarrow> number \<Rightarrow> bool" where
  "number_ge NaN _ = False"
| "number_ge _ NaN = False"
| "number_ge PosInf _ = True"
| "number_ge _ NegInf = True"
| "number_ge NegInf _ = False"
| "number_ge _ PosInf = False"
| "number_ge (Fin a) (Fin b) = (b \<le> a)"

text \<open>
  \<^verbatim>\<open>xs.slice(0, stop)\<close>: \<open>stop\<close> is truncated towards zero, NaN counts as 0, a negative
  value counts from the end of the array, and the result is clamped to the array.
\<close>

definition slice0 :: "number \<Rightarrow> 'a list \<Rightarrow> 'a list" where
  "slice0 stop xs =
     (case stop of
        NaN \<Rightarrow> []
      | PosInf \<Rightarrow> xs
      | NegInf \<Rightarrow> []
      | Fin q \<Rightarrow>
          (let e = (if 0 \<le> q then \<lfloor>q\<rfloor> else \<lceil>q\<rceil>)
           in if e < 0 then take (nat (max (int (length xs) + e) 0)) xs
              else take (nat e) xs))"

section \<open>URLs\<close>

text \<open>
  \<^verbatim>\<open>normalizeArticleUrl\<close> works on the platform's \<^verbatim>\<open>URL\<close> class. A URL object is the URL
  record of the URL Standard: a scheme, credentials, a host (kept in its serialised form,
  null when the URL has none), a port (null when absent or the scheme's default), a path
  that is either opaque (one string, as in \<^verbatim>\<open>mailto:\<close>) or a list of segments, a query and
  a fragment (null when absent).
\<close>

datatype url_path = Opaque string | Segments "string list"

record URL =
  scheme :: string
  username :: string
  password :: string
  host :: "string option"
  port :: "nat option"
  path :: url_path
  query :: "string option"
  fragment :: "string option"

text \<open>The decimal digits of a port number.\<close>

fun decimal :: "nat \<Rightarrow> string" where
  "decimal n =
     (if n < 10 then [''0123456789'' ! n]
      else decimal (n div 10) @ [''0123456789'' ! (n mod 10)])"

declare decimal.simps [simp del]

text \<open>
  \<^verbatim>\<open>u.toString()\<close>, the URL serialiser of the standard: the scheme and a colon; when there
  is a host, two slashes, the credentials with an at sign when there are any, the host and
  the port; when there is none and the path has more than one segment of which the first
  is empty, a slash and a dot; then the path, the query after a question mark and the
  fragment after a hash sign.
\<close>

definition serializePath :: "url_path \<Rightarrow> string" where
  "serializePath p = (case p of Opaque s \<Rightarrow> s | Segments segs \<Rightarrow> concat (map (\<lambda>s. CHR ''/'' # s) segs))"

definition serializeAuthority :: "'a URL_scheme \<Rightarrow> string" where
  "serializeAuthority u =
     (case host u of
        Some hst \<Rightarrow>
          ''//'' @
          (if username u \<noteq> [] \<or> password u \<noteq> []
           then username u @ (if password u \<noteq> [] then '':'' @ password u else []) @ ''@''
           else []) @
          hst @
          (case port u of None \<Rightarrow> [] | Some p \<Rightarrow> '':'' @ decimal p)
      | None \<Rightarrow>
          (case path u of
             Segments segs \<Rightarrow> if 1 < length segs \<and> hd segs = [] then ''/.'' else []
           | Opaque _ \<Rightarrow> []))"

definition URL_toString :: "URL \<Rightarrow> string" where
  "URL_toString u =
     scheme u @ '':'' @ serializeAuthority u @ serializePath (path u) @
     (case query u of None \<Rightarrow> [] | Some q \<Rightarrow> ''?'' @ q) @
     (case fragment u of None \<Rightarrow> [] | Some f \<Rightarrow> ''#'' @ f)"

text \<open>
  \<^verbatim>\<open>u.search = ""\<close> and \<^verbatim>\<open>u.hash = ""\<close>: the setters of the standard for the empty
  string. The query (the fragment) becomes null; an opaque path loses its trailing spaces
  once the URL has neither a query nor a fragment.
\<close>

definition stripTrailingSpaces :: "URL \<Rightarrow> URL" where
  "stripTrailingSpaces u =
     (case path u of
        Segments _ \<Rightarrow> u
      | Opaque s \<Rightarrow>
          if fragment u \<noteq> None \<or> query u \<noteq> None then u
          else u\<lparr>path := Opaque (rev (dropWhile (\<lambda>c. c = CHR '' '') (rev s)))\<rparr>)"

definition set_search_empty :: "URL \<Rightarrow> URL" where
  "set_search_empty u = stripTrailingSpaces (u\<lparr>query := None\<rparr>)"

definition set_hash_empty :: "URL \<Rightarrow> URL" where
  "set_hash_empty u = stripTrailingSpaces (u\<lparr>fragment := None\<rparr>)"

text \<open>
  \<^verbatim>\<open>normalizeArticleUrl\<close> (lines 158-168). The constructor \<^verbatim>\<open>new URL(absUrl)\<close> is the
  platform's parser and is a parameter \<open>newURL\<close>: it gives the URL record, or nothing when
  it throws, which the \<^verbatim>\<open>catch\<close> turns into null. \<^verbatim>\<open>!absUrl\<close> holds for null and for
  the empty string.
\<close>

definition normalizeArticleUrl :: "(string \<Rightarrow> URL option) \<Rightarrow> string option \<Rightarrow> string option" where
  "normalizeArticleUrl newURL absUrl =
     (case absUrl of
        None \<Rightarrow> None
      | Some s \<Rightarrow>
          if s = [] then None
          else (case newURL s of
                  None \<Rightarrow> None
                | Some u \<Rightarrow> Some (URL_toString (set_hash_empty (set_search_empty u)))))"

text \<open>
  The canonical form as the specification words it (``scheme+host+path only''): the scheme,
  the host and the path of a URL object, and nothing else. The host is taken in the wide
  sense of the \<^verbatim>\<open>host\<close> property of a URL object, which includes the port.
\<close>

definition schemeHostPath :: "URL \<Rightarrow> string" where
  "schemeHostPath u =
     scheme u @ ''://'' @
     (case host u of None \<Rightarrow> [] | Some hst \<Rightarrow> hst) @
     (case port u of None \<Rightarrow> [] | Some p \<Rightarrow> '':'' @ decimal p) @
     serializePath (path u)"

section \<open>Keyword filters and the normalisation of a scrape\<close>

text \<open>\<^verbatim>\<open>includesAny\<close> (lines 85-89) and \<^verbatim>\<open>excludesAll\<close> (lines 91-95).\<close>

definition includesAny :: "string option \<Rightarrow> string list \<Rightarrow> bool" where
  "includesAny text kws =
     (if kws = [] then True
      else (let low = toLowerCase (orString text [])
            in list_ex (\<lambda>k. includes_str low (toLowerCase k)) kws))"

definition excludesAll :: "string option \<Rightarrow> string list \<Rightarrow> bool" where
  "excludesAll text kws =
     (if kws = [] then True
      else (let low = toLowerCase (orString text [])
            in \<not> list_ex (\<lambda>k. includes_str low (toLowerCase k)) kws))"

text \<open>The minimum-claps filter \<^verbatim>\<open>x => (x.claps == null ? true : x.claps >= minClaps)\<close>.\<close>

definition clapsAtLeast :: "number \<Rightarrow> Article \<Rightarrow> bool" where
  "clapsAtLeast minC x = (case claps x of None \<Rightarrow> True | Some c \<Rightarrow> number_ge (Fin (of_int c)) minC)"

text \<open>\<^verbatim>\<open>a.claps ?? 0\<close>, the sort key of both comparators.\<close>

definition clapsOr0 :: "Article \<Rightarrow> int" where
  "clapsOr0 a = (case claps a of None \<Rightarrow> 0 | Some c \<Rightarrow> c)"

text \<open>
  The chain that builds \<^verbatim>\<open>normalized\<close> in \<^verbatim>\<open>scrapeTag\<close> (lines 386-399). \<open>clock i\<close> is
  what \<^verbatim>\<open>new Date().toISOString()\<close> returns when the \<^verbatim>\<open>map\<close> callback runs for item
  \<open>i\<close>. \<open>filtered\<close> is the chain up to the last \<^verbatim>\<open>filter\<close>; \<open>normalized\<close> sorts and slices it.
\<close>

definition filtered :: "(string \<Rightarrow> URL option) \<Rightarrow> (nat \<Rightarrow> string) \<Rightarrow> string \<Rightarrow> 'a ScrapeOptions_scheme \<Rightarrow> RawArticle list \<Rightarrow> Article list" where
  "filtered newURL clock tg opts items =
     filter (clapsAtLeast (minClaps opts))
       (filter (\<lambda>x. excludesAll (Some (orString (title x) [])) (exclude' opts))
          (filter (\<lambda>x. includesAny (Some (orString (title x) [])) (include' opts))
             (filter (\<lambda>x. url x \<noteq> None)
                (map (\<lambda>(i, x). \<lparr>url = normalizeArticleUrl newURL (raw_url x),
                                 title = raw_title x,
                                 createdAt = clock i,
                                 claps = raw_claps x,
                                 comments = raw_comments x,
                                 tag = tg\<rparr>)
                   (enumerate 0 items)))))"

definition normalized :: "(string \<Rightarrow> URL option) \<Rightarrow> (nat \<Rightarrow> string) \<Rightarrow> string \<Rightarrow> 'a ScrapeOptions_scheme \<Rightarrow> RawArticle list \<Rightarrow> Article list" where
  "normalized newURL clock tg opts items =
     slice0 (limit opts) (sort_key (\<lambda>a. - clapsOr0 a) (filtered newURL clock tg opts items))"

section \<open>Numeric tokens\<close>

text \<open>
  \<^verbatim>\<open>toNum\<close> (lines 180-190). \<open>cleaned\<close> keeps the digits, the dot and the letters k, K, m,
  M. The regular expression \<^verbatim>\<open>/(\d+(?:\.\d+)?)([kKmM]?)/\<close> has no anchor: \<^verbatim>\<open>exec\<close>
  finds its leftmost match, which starts at the first digit of \<open>cleaned\<close>; there is none
  exactly when \<open>cleaned\<close> has no digit. Group 1 is the longest run of digits from there,
  extended by a dot and the digits after it when a digit follows the dot; group 2 is the
  next character when it is one of k, K, m, M. \<open>regexMatch\<close> returns the two groups.
\<close>

definition regexMatch :: "string \<Rightarrow> (string \<times> string) option" where
  "regexMatch cleaned =
     (let s = dropWhile (\<lambda>c. \<not> isDigit c) cleaned in
      if s = [] then None
      else (let ip = takeWhile isDigit s;
                r1 = dropWhile isDigit s;
                (m1, r2) = (case r1 of
                              [] \<Rightarrow> (ip, [])
                            | c # t \<Rightarrow>
                                if c = CHR ''.'' \<and> takeWhile isDigit t \<noteq> []
                                then (ip @ ''.'' @ takeWhile isDigit t, dropWhile isDigit t)
                                else (ip, r1));
                m2 = (case r2 of [] \<Rightarrow> [] | c # _ \<Rightarrow> if c \<in> set ''kKmM'' then [c] else [])
            in Some (m1, m2)))"

text \<open>
  The mathematical value of group 1, which is digits with an optional fraction;
  \<^verbatim>\<open>Number(m[1])\<close> is the double nearest to it.
\<close>

definition decimalValue :: "string \<Rightarrow> rat" where
  "decimalValue m1 =
     (let ip = takeWhile isDigit m1; fp = drop (Suc (length ip)) m1
      in of_nat (digitsValue (ip @ fp)) / 10 ^ length fp)"

definition keepChar :: "char \<Rightarrow> bool" where
  "keepChar c = (isDigit c \<or> c = CHR ''.'' \<or> c \<in> set ''kKmM'')"

definition toNum :: "string option \<Rightarrow> number option" where
  "toNum s =
     (case s of
        None \<Rightarrow> None
      | Some str \<Rightarrow>
          if str = [] then None
          else (let cleaned = filter keepChar str
                in case regexMatch cleaned of
                     None \<Rightarrow> None
                   | Some (m1, m2) \<Rightarrow>
                       (let n = toDouble (decimalValue m1); suf = toLowerCase m2
                        in if suf = ''k'' then Some (Math_round (mulD n 1000))
                           else if suf = ''m'' then Some (Math_round (mulD n 1000000))
                           else Some (Math_round n))))"

text \<open>
  The factor that the character after the number selects: 1000 for k or K, 1000000 for m or
  M, and 1 otherwise; and the number scaled by it, which is multiplied only when there is a
  suffix.
\<close>

definition scaleOf :: "string \<Rightarrow> nat" where
  "scaleOf rest =
     (case rest of
        [] \<Rightarrow> 1
      | c # _ \<Rightarrow> if c \<in> set ''kK'' then 1000 else if c \<in> set ''mM'' then 1000000 else 1)"

definition scaled :: "number \<Rightarrow> string \<Rightarrow> number" where
  "scaled n rest =
     (case rest of
        [] \<Rightarrow> n
      | c # _ \<Rightarrow> if c \<in> set ''kK'' then mulD n 1000
                 else if c \<in> set ''mM'' then mulD n 1000000 else n)"

text \<open>
  The parser as the specification words it (``match a leading decimal number plus optional
  suffix''): the number has to stand at the start of the stripped string. It differs from
  \<open>toNum\<close> only in the anchor.
\<close>

definition leadingMatch :: "string \<Rightarrow> (string \<times> string) option" where
  "leadingMatch cleaned =
     (case cleaned of [] \<Rightarrow> None | c # _ \<Rightarrow> if isDigit c then regexMatch cleaned else None)"

definition toNum_spec :: "string option \<Rightarrow> number option" where
  "toNum_spec s =
     (case s of
        None \<Rightarrow> None
      | Some str \<Rightarrow>
          if str = [] then None
          else (case leadingMatch (filter keepChar str) of
                  None \<Rightarrow> None
                | Some (m1, m2) \<Rightarrow>
                    (let n = toDouble (decimalValue m1); suf = toLowerCase m2
                     in if suf = ''k'' then Some (Math_round (mulD n 1000))
                        else if suf = ''m'' then Some (Math_round (mulD n 1000000))
                        else Some (Math_round n))))"

section \<open>Command line\<close>

text \<open>
  \<^verbatim>\<open>parseArgs\<close> (lines 59-77) on \<^verbatim>\<open>process.argv.slice(2)\<close>. \<open>applyOption a nextArg p\<close> is one
  branch of the loop body for the option \<open>a\<close>, where \<open>nextArg\<close> is \<^verbatim>\<open>args[++i]\<close>
  (\<^verbatim>\<open>undefined\<close> past the end of the array); an argument that is no option is skipped.
\<close>

definition keywordList :: "string \<Rightarrow> string list" where
  "keywordList s = filter (\<lambda>w. w \<noteq> []) (map trim (split_comma s))"

definition isOption :: "string \<Rightarrow> bool" where
  "isOption a = (a \<in> set [''--scrolls'', ''--minClaps'', ''--limit'', ''--include'', ''--exclude'', ''--headless''])"

definition applyOption :: "string \<Rightarrow> string option \<Rightarrow> ParsedArgs \<Rightarrow> ParsedArgs" where
  "applyOption a nextArg p =
     (if a = ''--scrolls'' then p\<lparr>scrolls := orNumber (Number (case nextArg of None \<Rightarrow> ''6'' | Some v \<Rightarrow> v)) (Fin 6)\<rparr>
      else if a = ''--minClaps'' then p\<lparr>minClaps := orNumber (Number (case nextArg of None \<Rightarrow> ''0'' | Some v \<Rightarrow> v)) (Fin 0)\<rparr>
      else if a = ''--limit'' then p\<lparr>limit := orNumber (Number (case nextArg of None \<Rightarrow> ''30'' | Some v \<Rightarrow> v)) (Fin 30)\<rparr>
      else if a = ''--include'' then p\<lparr>include' := keywordList (orString nextArg [])\<rparr>
      else if a = ''--exclude'' then p\<lparr>exclude' := keywordList (orString nextArg [])\<rparr>
      else if a = ''--headless'' then
        p\<lparr>headless := (toLowerCase (case nextArg of None \<Rightarrow> ''undefined'' | Some v \<Rightarrow> v) \<noteq> ''false'')\<rparr>
      else p)"

fun parseLoop :: "string list \<Rightarrow> ParsedArgs \<Rightarrow> ParsedArgs" where
  "parseLoop [] p = p"
| "parseLoop [a] p = (if isOption a then applyOption a None p else p)"
| "parseLoop (a # v # rest) p =
     (if isOption a then parseLoop rest (applyOption a (Some v) p) else parseLoop (v # rest) p)"

text \<open>
  Without arguments the program prints its usage and calls \<^verbatim>\<open>process.exit(1)\<close>: the
  result is the exit code.
\<close>

definition parseArgs :: "string list \<Rightarrow> nat + ParsedArgs" where
  "parseArgs args =
     (case args of
        [] \<Rightarrow> Inl 1
      | a0 # rest \<Rightarrow>
          Inr (parseLoop rest
                 \<lparr>scrolls = Fin 6, minClaps = Fin 0, limit = Fin 30, include' = [], exclude' = [],
                  headless = True, tags = keywordList a0\<rparr>))"

text \<open>The invariant of the loop: no numeric option is NaN, and only \<open>minClaps\<close> can be 0.\<close>

definition numericOk :: "ParsedArgs \<Rightarrow> bool" where
  "numericOk p = (scrolls p \<noteq> NaN \<and> scrolls p \<noteq> Fin 0 \<and> minClaps p \<noteq> NaN \<and>
                  limit p \<noteq> NaN \<and> limit p \<noteq> Fin 0)"

section \<open>The persisted store\<close>

text \<open>
  \<^verbatim>\<open>loadExistingData\<close> (lines 411-418). \<^verbatim>\<open>fs.readFile\<close> and \<^verbatim>\<open>JSON.parse\<close> are
  parameters: each gives a value or throws. The \<^verbatim>\<open>try\<close> block runs one after the other
  and stops at the first exception; the \<^verbatim>\<open>catch\<close> returns the empty object. The parsed
  document has the type the program declares for it, a mapping from tags to articles.
\<close>

datatype exn = Exn string

type_synonym store = "string \<rightharpoonup> Article list"

definition loadExistingData :: "(string \<Rightarrow> exn + string) \<Rightarrow> (string \<Rightarrow> exn + store) \<Rightarrow> string \<Rightarrow> exn + store" where
  "loadExistingData readFile JSON_parse filePath =
     (case (case readFile filePath of
              Inl e \<Rightarrow> Inl e
            | Inr content \<Rightarrow> JSON_parse content) of
        Inl e \<Rightarrow> Inr Map.empty
      | Inr v \<Rightarrow> Inr v)"

section \<open>Incremental merge\<close>

text \<open>
  \<^verbatim>\<open>new Map(entries)\<close>: entries are inserted in order, a later entry replaces an earlier
  one with the same key.
\<close>

definition Map_of :: "('k \<times> 'v) list \<Rightarrow> ('k \<rightharpoonup> 'v)" where
  "Map_of es = fold (\<lambda>kv m. m(fst kv \<mapsto> snd kv)) es Map.empty"

text \<open>
  \<^verbatim>\<open>xs.sort((a, b) => (b.claps ?? 0) - (a.claps ?? 0))\<close>. The comparator is a consistent
  total preorder on integer keys and \<^verbatim>\<open>Array.prototype.sort\<close> is stable, so the result is
  the stable sort by descending key: \<open>sort_key\<close> on the negated key.
\<close>

definition sortByClaps :: "heap \<Rightarrow> ref list \<Rightarrow> ref list" where
  "sortByClaps h xs = sort_key (\<lambda>r. - clapsOr0 (h r)) xs"

text \<open>
  The body of \<^verbatim>\<open>newArticles.forEach\<close> in \<^verbatim>\<open>mergeArticles\<close> (lines 429-438), threaded
  through the store and the two counters. The two assignments happen one after the other,
  each reading the store as it then is.
\<close>

fun forEachNew :: "(string option \<rightharpoonup> ref) \<Rightarrow> ref list \<Rightarrow> heap \<times> nat \<times> nat \<Rightarrow> heap \<times> nat \<times> nat" where
  "forEachNew existingUrls [] s = s"
| "forEachNew existingUrls (newArticle # rest) (h, newCnt, updCnt) =
     (case existingUrls (url (h newArticle)) of
        Some existing \<Rightarrow>
          (let h1 = h(existing := (h existing)\<lparr>claps := claps (h newArticle)\<rparr>);
               h2 = h1(existing := (h1 existing)\<lparr>comments := comments (h1 newArticle)\<rparr>)
           in forEachNew existingUrls rest (h2, newCnt, updCnt + 1))
      | None \<Rightarrow> forEachNew existingUrls rest (h, newCnt + 1, updCnt))"

text \<open>
  \<^verbatim>\<open>mergeArticles(existing, newArticles, tag)\<close> (lines 420-449). \<^verbatim>\<open>existing[tag] || []\<close>
  is the tag's array, or the empty array when the tag is not a key of the store (the tag
  is taken to be an own key or absent). The result is the store after the in-place
  updates together with the returned object.
\<close>

definition existingArticlesOf :: "(string \<rightharpoonup> ref list) \<Rightarrow> string \<Rightarrow> ref list" where
  "existingArticlesOf existing tg = (case existing tg of None \<Rightarrow> [] | Some xs \<Rightarrow> xs)"

definition mergeArticles :: "heap \<Rightarrow> (string \<rightharpoonup> ref list) \<Rightarrow> ref list \<Rightarrow> string \<Rightarrow> heap \<times> MergeResult" where
  "mergeArticles h existing newArticles tg =
     (let existingArticles = existingArticlesOf existing tg;
          existingUrls = Map_of (map (\<lambda>a. (url (h a), a)) existingArticles);
          (h', newCnt, updCnt) = forEachNew existingUrls newArticles (h, 0, 0);
          carried = filter (\<lambda>e. \<not> list_ex (\<lambda>n. url (h' n) = url (h' e)) newArticles) existingArticles
      in (h', \<lparr>merged = sortByClaps h' (newArticles @ carried),
                newCount = newCnt, updatedCount = updCnt\<rparr>))"

text \<open>
  A collection as the sequence of its records, with \<^verbatim>\<open>createdAt\<close> blanked: two
  collections that agree on it are the same aside from \<^verbatim>\<open>createdAt\<close>.
\<close>

definition eraseCreatedAt :: "Article \<Rightarrow> Article" where
  "eraseCreatedAt a = a\<lparr>createdAt := []\<rparr>"

definition collection :: "heap \<Rightarrow> ref list \<Rightarrow> Article list" where
  "collection h xs = map (\<lambda>r. eraseCreatedAt (h r)) xs"

section \<open>Example data\<close>

text \<open>
  Two records of one URL: \<open>exOld\<close> as persisted by an earlier run, \<open>exFresh\<close> as a later
  scrape delivers it. In \<open>exHeap\<close> address 0 holds the old record and address 1 the fresh one.
\<close>

definition exOld :: Article where
  "exOld = \<lparr>url = Some ''https://medium.com/p/abc123'', title = Some ''Old title'',
            createdAt = ''2025-09-01T07:53:00.000Z'', claps = Some 10, comments = Some 1,
            tag = ''programming''\<rparr>"

definition exFresh :: Article where
  "exFresh = \<lparr>url = Some ''https://medium.com/p/abc123'', title = Some ''New title'',
              createdAt = ''2025-09-08T07:53:00.000Z'', claps = Some 20, comments = Some 2,
              tag = ''programming''\<rparr>"

definition exHeap :: heap where
  "exHeap = (\<lambda>_. exOld)(1 := exFresh)"

text \<open>Two records of different URLs with the same number of claps.\<close>

definition tieA :: Article where
  "tieA = \<lparr>url = Some ''https://medium.com/p/aaa111'', title = Some ''A'',
           createdAt = ''2025-09-01T07:53:00.000Z'', claps = Some 5, comments = None,
           tag = ''programming''\<rparr>"

definition tieB :: Article where
  "tieB = \<lparr>url = Some ''https://medium.com/p/bbb222'', title = Some ''B'',
           createdAt = ''2025-09-02T07:53:00.000Z'', claps = Some 5, comments = None,
           tag = ''programming''\<rparr>"

definition tieHeap :: heap where
  "tieHeap = (\<lambda>_. tieA)(1 := tieB)"

text \<open>The same store as a later scrape would stamp it: only \<^verbatim>\<open>createdAt\<close> differs.\<close>

definition tieHeapLater :: heap where
  "tieHeapLater = (\<lambda>r. (tieHeap r)\<lparr>createdAt := ''2025-09-30T07:53:00.000Z''\<rparr>)"

text \<open>
  The URL objects that \<^verbatim>\<open>new URL\<close> builds for the strings of the examples, as the URL
  Standard parses them: an article link with a query and a fragment, the same link without
  them, and a link with credentials and a port. Whatever the table does not list is mapped
  to a failure; of such strings the examples use only \<^verbatim>\<open>medium.com/p/abc123\<close>, which has
  no scheme and makes the constructor throw.
\<close>

definition exampleURL :: "string \<Rightarrow> URL option" where
  "exampleURL s =
     (if s = ''https://medium.com/p/abc123?source=home#top'' then
        Some \<lparr>scheme = ''https'', username = [], password = [], host = Some ''medium.com'',
              port = None, path = Segments [''p'', ''abc123''], query = Some ''source=home'',
              fragment = Some ''top''\<rparr>
      else if s = ''https://medium.com/p/abc123'' then
        Some \<lparr>scheme = ''https'', username = [], password = [], host = Some ''medium.com'',
              port = None, path = Segments [''p'', ''abc123''], query = None, fragment = None\<rparr>
      else if s = ''https://user:pw@medium.com:8443/p/abc123?source=home#top'' then
        Some \<lparr>scheme = ''https'', username = ''user'', password = ''pw'', host = Some ''medium.com'',
              port = Some 8443, path = Segments [''p'', ''abc123''], query = Some ''source=home'',
              fragment = Some ''top''\<rparr>
      else None)"

text \<open>A candidate as \<^verbatim>\<open>extractFromPage\<close> delivers it, and a clock.\<close>

definition exItem :: RawArticle where
  "exItem = \<lparr>raw_url = Some ''https://medium.com/p/abc123?source=home#top'',
             raw_title = Some ''AI Breakthrough'', datetime = None,
             timeLabel = Some ''3 hours ago'', raw_claps = Some 150, raw_comments = Some 4\<rparr>"

definition exClock :: "nat \<Rightarrow> string" where
  "exClock i = (if i = 0 then ''2025-09-08T07:53:00.000Z'' else ''2025-09-08T07:53:00.001Z'')"

section \<open>Properties of the rounding to doubles\<close>

lemma pow2_pos: "0 < pow2 k"
  by (simp add: pow2_def)

lemma pow2_of_nat: "pow2 (int n) = 2 ^ n"
  by (simp add: pow2_def)

lemma pow2_neg_nat: "pow2 (- int n) = 1 / 2 ^ n"
  by (simp add: pow2_def power_int_minus field_simps)

lemma pow2_add: "pow2 (j + k) = pow2 j * pow2 k"
  by (simp add: pow2_def power_int_add)

lemma pow2_mono: "j \<le> k \<Longrightarrow> pow2 j \<le> pow2 k"
  by (simp add: pow2_def power_int_increasing)

lemma pow2_less_imp: "pow2 j < pow2 k \<Longrightarrow> j < k"
  using pow2_mono [of k j] by (cases "j < k") auto

lemma of_nat_pow2_le: "2 ^ k \<le> n \<Longrightarrow> (2::rat) ^ k \<le> of_nat n"
proof -
  assume "2 ^ k \<le> n"
  then have "(of_nat (2 ^ k) :: rat) \<le> of_nat n"
    by (simp only: of_nat_le_iff)
  then show ?thesis by simp
qed

lemma of_nat_less_pow2: "n < 2 ^ k \<Longrightarrow> of_nat n + 1 \<le> (2::rat) ^ k"
proof -
  assume "n < 2 ^ k"
  then have "Suc n \<le> 2 ^ k" by simp
  then have "(of_nat (Suc n) :: rat) \<le> of_nat (2 ^ k)"
    by (simp only: of_nat_le_iff)
  then show ?thesis by simp
qed

lemma binadeExponent_bounds:
  assumes "0 < a"
  shows "pow2 (binadeExponent a) \<le> a \<and> a < pow2 (binadeExponent a + 1)"
proof (cases "1 \<le> a")
  case True
  define n where "n = nat \<lfloor>a\<rfloor>"
  have fl: "1 \<le> \<lfloor>a\<rfloor>" using True by linarith
  have n1: "0 < n" using fl by (simp add: n_def)
  have "of_nat n = (of_int \<lfloor>a\<rfloor> :: rat)"
    using fl by (simp add: n_def)
  then have n2: "of_nat n \<le> a" and n3: "a < of_nat n + 1"
    by linarith+
  from floorlog_bounds [of n 2] n1
  have b: "2 ^ (floorlog 2 n - 1) \<le> n" "n < 2 ^ floorlog 2 n"
    by simp_all
  have pos: "0 < floorlog 2 n"
    using b(2) n1 by (cases "floorlog 2 n") auto
  have e: "binadeExponent a = int (floorlog 2 n - 1)"
    using True pos by (simp add: binadeExponent_def n_def)
  have lo: "pow2 (binadeExponent a) \<le> a"
    using of_nat_pow2_le [OF b(1)] n2 unfolding e pow2_of_nat by linarith
  have e1: "binadeExponent a + 1 = int (floorlog 2 n)"
    using pos by (simp add: e)
  have hi: "a < pow2 (binadeExponent a + 1)"
    using of_nat_less_pow2 [OF b(2)] n3 unfolding e1 pow2_of_nat by linarith
  show ?thesis using lo hi by simp
next
  case False
  define b where "b = 1 / a"
  have b: "1 < b" using False assms by (simp add: b_def)
  have ba: "1 / b = a" by (simp add: b_def)
  define M where "M = nat \<lceil>b\<rceil> - 1"
  have cl: "2 \<le> \<lceil>b\<rceil>" using b by linarith
  have Mi: "int M = \<lceil>b\<rceil> - 1"
    unfolding M_def using cl by linarith
  have "(of_int (int M) :: rat) = of_int (\<lceil>b\<rceil> - 1)"
    by (simp only: Mi)
  then have "of_nat M = (of_int \<lceil>b\<rceil> :: rat) - 1"
    by simp
  then have M2: "of_nat M < b" and M3: "b \<le> of_nat M + 1"
    by linarith+
  have M1: "0 < M" using cl Mi by linarith
  from floorlog_bounds [of M 2] M1
  have c: "2 ^ (floorlog 2 M - 1) \<le> M" "M < 2 ^ floorlog 2 M"
    by simp_all
  have pos: "0 < floorlog 2 M"
    using c(2) M1 by (cases "floorlog 2 M") auto
  have e: "binadeExponent a = - int (floorlog 2 M)"
    using False by (simp add: binadeExponent_def M_def b_def)
  have e1: "binadeExponent a + 1 = - int (floorlog 2 M - 1)"
    using pos by (simp add: e)
  have "b \<le> 2 ^ floorlog 2 M"
    using of_nat_less_pow2 [OF c(2)] M3 by linarith
  then have "1 / 2 ^ floorlog 2 M \<le> 1 / b"
    using b by (intro divide_left_mono) simp_all
  then have lo: "pow2 (binadeExponent a) \<le> a"
    unfolding e pow2_neg_nat ba .
  have "2 ^ (floorlog 2 M - 1) < b"
    using of_nat_pow2_le [OF c(1)] M2 by linarith
  then have "1 / b < 1 / 2 ^ (floorlog 2 M - 1)"
    using b by (intro divide_strict_left_mono) simp_all
  then have hi: "a < pow2 (binadeExponent a + 1)"
    unfolding e1 pow2_neg_nat ba .
  show ?thesis using lo hi by simp
qed

lemma binadeExponent_eqI:
  assumes "pow2 e \<le> a" "a < pow2 (e + 1)"
  shows "binadeExponent a = e"
proof -
  have pos: "0 < a"
    using assms(1) pow2_pos [of e] by linarith
  note b = binadeExponent_bounds [OF pos]
  have "pow2 e < pow2 (binadeExponent a + 1)"
    using assms(1) b by linarith
  then have 1: "e < binadeExponent a + 1"
    by (rule pow2_less_imp)
  have "pow2 (binadeExponent a) < pow2 (e + 1)"
    using assms(2) b by linarith
  then have 2: "binadeExponent a < e + 1"
    by (rule pow2_less_imp)
  show ?thesis using 1 2 by simp
qed

lemma roundTiesEven_near:
  assumes "of_int r - 1 / 2 < m" "m < of_int r + 1 / 2"
  shows "roundTiesEven m = r"
proof -
  have "\<lfloor>m\<rfloor> = r \<or> \<lfloor>m\<rfloor> = r - 1"
    using assms by linarith
  then show ?thesis
  proof
    assume f: "\<lfloor>m\<rfloor> = r"
    then have "m - of_int r < 1 / 2" using assms by linarith
    then show ?thesis by (simp add: roundTiesEven_def f)
  next
    assume f: "\<lfloor>m\<rfloor> = r - 1"
    then have "1 / 2 < m - of_int (r - 1)" using assms by simp
    then show ?thesis by (simp add: roundTiesEven_def f Let_def)
  qed
qed

lemma roundTiesEven_of_int: "roundTiesEven (of_int r) = r"
  by (rule roundTiesEven_near) simp_all

lemma toDouble_eqI:
  assumes e: "pow2 e \<le> q" "q < pow2 (e + 1)"
      and k: "k = max (e - 52) (- 1074)"
      and r: "roundTiesEven (q / pow2 k) = r"
      and fin: "of_int r * pow2 k < pow2 1024"
  shows "toDouble q = Fin (of_int r * pow2 k)"
proof -
  have pos: "0 < q"
    using e(1) pow2_pos [of e] by linarith
  have "binadeExponent \<bar>q\<bar> = e"
    using pos e by (intro binadeExponent_eqI) simp_all
  then show ?thesis
    using pos k r fin by (simp add: toDouble_def Let_def)
qed

lemma toDouble_of_nat:
  assumes "n < 2 ^ 53"
  shows "toDouble (of_nat n) = Fin (of_nat n)"
proof (cases "n = 0")
  case True
  then show ?thesis by (simp add: toDouble_def)
next
  case False
  then have n0: "0 < n" by simp
  define l where "l = floorlog 2 n"
  from floorlog_bounds [of n 2] n0
  have b: "2 ^ (l - 1) \<le> n" "n < 2 ^ l"
    by (simp_all add: l_def)
  have pos: "0 < l"
    using b(2) n0 by (cases l) auto
  have p53: "(2::nat) ^ (l - 1) < 2 ^ 53"
    using b(1) assms by linarith
  have l53: "l - 1 < 53"
  proof (rule power_less_imp_less_exp)
    show "(1::nat) < 2" by simp
    show "(2::nat) ^ (l - 1) < 2 ^ 53" by (rule p53)
  qed
  define d where "d = 52 - (l - 1)"
  have e1: "pow2 (int (l - 1)) \<le> of_nat n"
    unfolding pow2_of_nat using of_nat_pow2_le [OF b(1)] .
  have il: "int (l - 1) + 1 = int l"
    using pos by simp
  have e2: "(of_nat n :: rat) < pow2 (int (l - 1) + 1)"
    unfolding il pow2_of_nat using of_nat_less_pow2 [OF b(2)] by linarith
  have k: "- int d = max (int (l - 1) - 52) (- 1074)"
    using l53 by (simp add: d_def)
  have q: "(of_nat n :: rat) / pow2 (- int d) = of_int (int (n * 2 ^ d))"
    by (simp add: pow2_neg_nat)
  have r: "roundTiesEven (of_nat n / pow2 (- int d)) = int (n * 2 ^ d)"
    unfolding q by (rule roundTiesEven_of_int)
  have v: "of_int (int (n * 2 ^ d)) * pow2 (- int d) = (of_nat n :: rat)"
    by (simp add: pow2_neg_nat)
  have "(of_nat n :: rat) < 2 ^ 53"
    using assms by (metis of_nat_less_iff of_nat_numeral of_nat_power)
  also have "\<dots> < pow2 1024"
    by (simp add: pow2_def)
  finally have fin: "of_int (int (n * 2 ^ d)) * pow2 (- int d) < pow2 1024"
    unfolding v .
  show ?thesis
    using toDouble_eqI [OF e1 e2 k r fin] unfolding v .
qed

lemma toDouble_numeral:
  "numeral w < (2::nat) ^ 53 \<Longrightarrow> toDouble (numeral w) = Fin (numeral w)"
  using toDouble_of_nat [of "numeral w"] by simp

lemma toDouble_0: "toDouble 0 = Fin 0"
  by (simp add: toDouble_def)

lemma toDouble_1: "toDouble 1 = Fin 1"
  using toDouble_of_nat [of 1] by simp

lemma toDouble_underflow:
  assumes "0 < q" "q < pow2 (- 1075)"
  shows "toDouble q = Fin 0"
proof -
  note b = binadeExponent_bounds [OF assms(1)]
  have "pow2 (binadeExponent q) < pow2 (- 1075)"
    using b assms(2) by linarith
  then have "binadeExponent q < - 1075"
    by (rule pow2_less_imp)
  then have k: "max (binadeExponent \<bar>q\<bar> - 52) (- 1074) = - 1074"
    using assms(1) by simp
  have "q / pow2 (- 1074) < pow2 (- 1075) / pow2 (- 1074)"
    using assms(2) pow2_pos [of "- 1074"] by (simp add: divide_strict_right_mono)
  also have "pow2 (- 1075) / pow2 (- 1074) = 1 / 2"
    using pow2_add [of "- 1075" 1] by (simp add: pow2_def)
  finally have "q / pow2 (- 1074) < 1 / 2" .
  moreover have "0 < q / pow2 (- 1074)"
    using assms(1) pow2_pos [of "- 1074"] by simp
  ultimately have "roundTiesEven (q / pow2 (- 1074)) = 0"
    by (intro roundTiesEven_near) simp_all
  moreover have "\<not> pow2 1024 \<le> 0"
    using pow2_pos [of 1024] by linarith
  ultimately show ?thesis
    using assms(1) k by (simp add: toDouble_def Let_def)
qed

lemma roundTiesEven_ge_floor: "\<lfloor>m\<rfloor> \<le> roundTiesEven m"
  by (simp add: roundTiesEven_def Let_def)

lemma toDouble_overflow:
  assumes "pow2 1024 \<le> q"
  shows "toDouble q = PosInf"
proof -
  have pos: "0 < q"
    using assms pow2_pos [of 1024] by linarith
  define e where "e = binadeExponent q"
  note b = binadeExponent_bounds [OF pos, folded e_def]
  have "pow2 1024 < pow2 (e + 1)"
    using b assms by linarith
  then have e: "1024 < e + 1"
    by (rule pow2_less_imp)
  then have k: "max (e - 52) (- 1074) = e - 52"
    by simp
  have p: "pow2 e = pow2 52 * pow2 (e - 52)"
    using pow2_add [of 52 "e - 52"] by simp
  have "pow2 52 * pow2 (e - 52) \<le> q"
    using b p by simp
  then have "pow2 52 \<le> q / pow2 (e - 52)"
    using pow2_pos [of "e - 52"] by (simp add: pos_le_divide_eq)
  then have "(of_int (2 ^ 52) :: rat) \<le> q / pow2 (e - 52)"
    by (simp add: pow2_def)
  then have "2 ^ 52 \<le> \<lfloor>q / pow2 (e - 52)\<rfloor>"
    by (simp only: le_floor_iff)
  then have "2 ^ 52 \<le> roundTiesEven (q / pow2 (e - 52))"
    using roundTiesEven_ge_floor [of "q / pow2 (e - 52)"] by linarith
  then have "(of_int (2 ^ 52) :: rat) \<le> of_int (roundTiesEven (q / pow2 (e - 52)))"
    by (simp only: of_int_le_iff)
  then have "pow2 52 \<le> of_int (roundTiesEven (q / pow2 (e - 52)))"
    by (simp add: pow2_def)
  then have "pow2 52 * pow2 (e - 52) \<le> of_int (roundTiesEven (q / pow2 (e - 52))) * pow2 (e - 52)"
    using pow2_pos [of "e - 52"] by (simp add: mult_right_mono)
  moreover have "pow2 1024 \<le> pow2 e"
    using e by (intro pow2_mono) simp
  ultimately have "pow2 1024 \<le> of_int (roundTiesEven (q / pow2 (e - 52))) * pow2 (e - 52)"
    using p by linarith
  then show ?thesis
    using pos k by (simp add: toDouble_def Let_def e_def [symmetric])
qed

lemma floor_rat_numeral: "\<lfloor>(numeral a / numeral b :: rat)\<rfloor> = numeral a div numeral b"
  using floor_divide_of_int_eq [of "numeral a" "numeral b", where ?'a = rat] by simp

lemma Math_round_of_nat: "Math_round (Fin (of_nat n)) = Fin (of_nat n)"
proof -
  have "\<lfloor>(of_nat n :: rat) + 1 / 2\<rfloor> = int n"
    by linarith
  then show ?thesis
    by (simp add: Math_round_def)
qed

lemma Math_round_numeral: "Math_round (Fin (numeral w)) = Fin (numeral w)"
  using Math_round_of_nat [of "numeral w"] by simp

text \<open>
  The doubles of the examples: 1.2 and 1.2 * 1000, 0.5005 and 0.5005 * 1000, 0.4, and the
  two literals outside the range of the doubles.
\<close>

lemma toDouble_1_2: "toDouble (6 / 5) = Fin (5404319552844595 / 4503599627370496)"
  using toDouble_eqI [of 0 "6 / 5" "- 52" 5404319552844595]
  by (simp add: pow2_def roundTiesEven_near)

lemma toDouble_1_2_k: "toDouble (5404319552844595 / 4503599627370496 * 1000) = Fin 1200"
  using toDouble_eqI [of 10 "5404319552844595 / 4503599627370496 * 1000" "- 42" 5277655813324800]
  by (simp add: pow2_def roundTiesEven_near)

lemma toDouble_0_5005: "toDouble (1001 / 2000) = Fin (2254051613498933 / 4503599627370496)"
  using toDouble_eqI [of "- 1" "1001 / 2000" "- 53" 4508103226997866]
  by (simp add: pow2_def roundTiesEven_near)

lemma toDouble_0_5005_k:
  "toDouble (2254051613498933 / 4503599627370496 * 1000) = Fin (8804889115230207 / 17592186044416)"
  using toDouble_eqI [of 8 "2254051613498933 / 4503599627370496 * 1000" "- 44" 8804889115230207]
  by (simp add: pow2_def roundTiesEven_near)

lemma mulD_1_2_k: "mulD (toDouble (6 / 5)) 1000 = Fin 1200"
  by (simp only: toDouble_1_2 mulD_def number.case toDouble_1_2_k)

lemma mulD_0_5005_k:
  "mulD (toDouble (1001 / 2000)) 1000 = Fin (8804889115230207 / 17592186044416)"
  by (simp only: toDouble_0_5005 mulD_def number.case toDouble_0_5005_k)

lemma toDouble_0_4: "toDouble (2 / 5) = Fin (3602879701896397 / 9007199254740992)"
  using toDouble_eqI [of "- 2" "2 / 5" "- 54" 7205759403792794]
  by (simp add: pow2_def roundTiesEven_near)

lemma toDouble_1e_400: "toDouble (1 / 10 ^ 400) = Fin 0"
  by (rule toDouble_underflow) (simp_all add: pow2_def)

lemma toDouble_1e400: "toDouble (10 ^ 400) = PosInf"
  by (rule toDouble_overflow) (simp add: pow2_def)

section \<open>Properties of the URL canonicalisation\<close>

text \<open>What the two setters leave of a URL object.\<close>

lemma cleared_fields:
  "scheme (set_hash_empty (set_search_empty u)) = scheme u"
  "username (set_hash_empty (set_search_empty u)) = username u"
  "password (set_hash_empty (set_search_empty u)) = password u"
  "host (set_hash_empty (set_search_empty u)) = host u"
  "port (set_hash_empty (set_search_empty u)) = port u"
  "query (set_hash_empty (set_search_empty u)) = None"
  "fragment (set_hash_empty (set_search_empty u)) = None"
  "path (set_hash_empty (set_search_empty u)) =
     (case path u of
        Segments segs \<Rightarrow> Segments segs
      | Opaque p \<Rightarrow> Opaque (rev (dropWhile (\<lambda>c. c = CHR '' '') (rev p))))"
  by (auto simp: set_hash_empty_def set_search_empty_def stripTrailingSpaces_def split: url_path.splits)

lemma dropWhile_idem: "dropWhile P (dropWhile P xs) = dropWhile P xs"
  by (induction xs) auto

lemma cleared_idem:
  "set_hash_empty (set_search_empty (set_hash_empty (set_search_empty u))) =
   set_hash_empty (set_search_empty u)"
  by (auto simp: set_hash_empty_def set_search_empty_def stripTrailingSpaces_def dropWhile_idem
      split: url_path.splits)

lemma serializeAuthority_cleared:
  "serializeAuthority (set_hash_empty (set_search_empty u)) = serializeAuthority u"
  by (cases "path u"; cases "host u"; cases "port u") (simp_all add: serializeAuthority_def cleared_fields)

lemma URL_toString_cleared:
  "URL_toString (set_hash_empty (set_search_empty u)) =
     scheme u @ '':'' @ serializeAuthority u @
     (case path u of
        Segments segs \<Rightarrow> concat (map (\<lambda>s. CHR ''/'' # s) segs)
      | Opaque p \<Rightarrow> rev (dropWhile (\<lambda>c. c = CHR '' '') (rev p)))"
  by (simp add: URL_toString_def serializeAuthority_cleared cleared_fields serializePath_def
      split: url_path.splits)

lemma decimal_8443: "decimal 8443 = ''8443''"
  by (simp add: decimal.simps)

text \<open>
  \<^bold>\<open>C3\<close> (amended). For every input and every behaviour of the URL constructor,
  \<^verbatim>\<open>normalizeArticleUrl\<close> returns null exactly when the input is absent, is the empty string
  or fails to parse. Otherwise it returns the serialisation of the parsed URL without its
  query and without its fragment: the scheme, the authority (the host and the port,
  preceded by the credentials when the input has any) and the path, where an opaque path
  has lost its trailing spaces. For an input with a host and without credentials this is
  the scheme, the host with its port, and the path only.
\<close>

theorem normalizeArticleUrl_canonical:
  "(normalizeArticleUrl newURL x = None \<longleftrightarrow>
      (case x of None \<Rightarrow> True | Some s \<Rightarrow> s = [] \<or> newURL s = None)) \<and>
   (s \<noteq> [] \<and> newURL s = Some u \<longrightarrow>
      normalizeArticleUrl newURL (Some s) =
        Some (scheme u @ '':'' @ serializeAuthority u @
              (case path u of
                 Segments segs \<Rightarrow> concat (map (\<lambda>s. CHR ''/'' # s) segs)
               | Opaque p \<Rightarrow> rev (dropWhile (\<lambda>c. c = CHR '' '') (rev p))))) \<and>
   (s \<noteq> [] \<and> newURL s = Some u \<and> host u \<noteq> None \<and> username u = [] \<and> password u = [] \<and>
    path u = Segments segs \<longrightarrow>
      normalizeArticleUrl newURL (Some s) = Some (schemeHostPath u))"
proof -
  have "scheme u @ '':'' @ serializeAuthority u @ concat (map (\<lambda>s. CHR ''/'' # s) segs) = schemeHostPath u"
    if "host u \<noteq> None" "username u = []" "password u = []" "path u = Segments segs"
    using that by (auto simp: serializeAuthority_def schemeHostPath_def serializePath_def)
  then show ?thesis
    by (auto simp: normalizeArticleUrl_def URL_toString_cleared split: option.splits)
qed

text \<open>
  The amended C3 at an article link with a query and a fragment, and at a string without a
  scheme.
\<close>

theorem normalizeArticleUrl_canonical_witness:
  "normalizeArticleUrl exampleURL (Some ''https://medium.com/p/abc123?source=home#top'') =
     Some ''https://medium.com/p/abc123'' \<and>
   normalizeArticleUrl exampleURL (Some ''medium.com/p/abc123'') = None"
proof -
  let ?u = "\<lparr>scheme = ''https'', username = [], password = [], host = Some ''medium.com'',
             port = None, path = Segments [''p'', ''abc123''], query = Some ''source=home'',
             fragment = Some ''top''\<rparr>"
  note t = normalizeArticleUrl_canonical [where newURL = exampleURL
      and s = "''https://medium.com/p/abc123?source=home#top''"
      and x = "Some ''medium.com/p/abc123''" and u = ?u and segs = "[''p'', ''abc123'']"]
  have p: "exampleURL ''https://medium.com/p/abc123?source=home#top'' = Some ?u"
    by (simp add: exampleURL_def)
  have "normalizeArticleUrl exampleURL (Some ''https://medium.com/p/abc123?source=home#top'') =
          Some (schemeHostPath ?u)"
    using t [THEN conjunct2, THEN conjunct2] p by simp
  moreover have "normalizeArticleUrl exampleURL (Some ''medium.com/p/abc123'') = None"
    using t [THEN conjunct1] by (simp add: exampleURL_def)
  ultimately show ?thesis
    by (simp add: schemeHostPath_def serializePath_def)
qed

text \<open>
  C3 as stated fails: for a link with credentials the result keeps them, so it is not the
  scheme, the host and the path only, even when the port counts as part of the host.
\<close>

theorem normalizeArticleUrl_keeps_credentials_counterexample:
  "normalizeArticleUrl exampleURL (Some ''https://user:pw@medium.com:8443/p/abc123?source=home#top'') =
     Some ''https://user:pw@medium.com:8443/p/abc123'' \<and>
   map_option schemeHostPath (exampleURL ''https://user:pw@medium.com:8443/p/abc123?source=home#top'') =
     Some ''https://medium.com:8443/p/abc123''"
  by (simp add: normalizeArticleUrl_def exampleURL_def set_search_empty_def set_hash_empty_def
     stripTrailingSpaces_def URL_toString_def serializeAuthority_def serializePath_def
     schemeHostPath_def decimal_8443)

text \<open>
  \<^bold>\<open>C8\<close>. Let \<^verbatim>\<open>normalizeArticleUrl\<close> succeed on \<open>s\<close> with the result \<open>t\<close>, and let the
  URL constructor read \<open>t\<close> back as the URL object that was serialised (the round trip of
  the platform's parser and serialiser; the constructor is not code of this program).
  Then \<^verbatim>\<open>normalizeArticleUrl\<close> returns \<open>t\<close> on \<open>t\<close>. On every URL object, clearing the
  query and the fragment twice is clearing them once.
\<close>

theorem normalizeArticleUrl_idempotent:
  assumes ok: "normalizeArticleUrl newURL (Some s) = Some t"
      and rt: "\<forall>u. newURL s = Some u \<longrightarrow>
                 newURL (URL_toString (set_hash_empty (set_search_empty u))) =
                   Some (set_hash_empty (set_search_empty u))"
  shows "normalizeArticleUrl newURL (Some t) = Some t \<and>
         set_hash_empty (set_search_empty (set_hash_empty (set_search_empty v))) =
           set_hash_empty (set_search_empty v)"
proof -
  from ok obtain u where u: "newURL s = Some u"
    and t: "t = URL_toString (set_hash_empty (set_search_empty u))"
    by (auto simp: normalizeArticleUrl_def split: option.splits if_splits)
  have "t \<noteq> []"
    by (simp add: t URL_toString_def)
  moreover have "newURL t = Some (set_hash_empty (set_search_empty u))"
    using rt u t by simp
  ultimately show ?thesis
    by (simp add: normalizeArticleUrl_def cleared_idem t)
qed

text \<open>C8 at an article link with a query and a fragment.\<close>

theorem normalizeArticleUrl_idempotent_witness:
  "normalizeArticleUrl exampleURL (Some ''https://medium.com/p/abc123?source=home#top'') =
     Some ''https://medium.com/p/abc123'' \<and>
   normalizeArticleUrl exampleURL (Some ''https://medium.com/p/abc123'') =
     Some ''https://medium.com/p/abc123''"
proof -
  have ok: "normalizeArticleUrl exampleURL (Some ''https://medium.com/p/abc123?source=home#top'') =
     Some ''https://medium.com/p/abc123''"
    by (simp add: normalizeArticleUrl_def exampleURL_def set_search_empty_def set_hash_empty_def
     stripTrailingSpaces_def URL_toString_def serializeAuthority_def serializePath_def)
  have rt: "\<forall>u. exampleURL ''https://medium.com/p/abc123?source=home#top'' = Some u \<longrightarrow>
                 exampleURL (URL_toString (set_hash_empty (set_search_empty u))) =
                   Some (set_hash_empty (set_search_empty u))"
    by (simp add: exampleURL_def set_search_empty_def set_hash_empty_def
     stripTrailingSpaces_def URL_toString_def serializeAuthority_def serializePath_def)
  show ?thesis
    using normalizeArticleUrl_idempotent [OF ok rt] ok by simp
qed

section \<open>Properties of the filters and of the normalisation\<close>

lemma example_normalized_url:
  "normalizeArticleUrl exampleURL (Some ''https://medium.com/p/abc123?source=home#top'') =
     Some ''https://medium.com/p/abc123''"
  by (simp add: normalizeArticleUrl_def exampleURL_def set_search_empty_def set_hash_empty_def
     stripTrailingSpaces_def URL_toString_def serializeAuthority_def serializePath_def)

lemma slice0_Nil: "slice0 n [] = []"
  by (cases n) (simp_all add: slice0_def Let_def)

text \<open>
  \<^bold>\<open>C5\<close>. With the keywords \<^verbatim>\<open>["ai"]\<close> to include, \<^verbatim>\<open>["scam"]\<close> to exclude and a minimum
  of 100 claps, whatever the other options, the URL constructor, the clock and the other
  fields of the candidate are: a candidate titled ``AI and Scam Alert'' with 150 claps is
  dropped, although its title passes the include filter, because it fails the exclude
  filter; a candidate titled ``AI Breakthrough'' with 50 claps is dropped; a candidate
  titled ``AI Breakthrough'' with 150 claps passes the three filters and is kept whenever
  its URL normalises, as the example candidate's does, which is also returned after the
  sort and the cut to the default limit of 30; and a record with null claps passes the
  minimum-claps filter for every threshold.
\<close>

theorem filter_composition:
  "normalized newURL clock tg
     \<lparr>scrolls = sc, minClaps = Fin 100, limit = lm, include' = [''ai''], exclude' = [''scam''], headless = hl\<rparr>
     [x\<lparr>raw_title := Some ''AI and Scam Alert'', raw_claps := Some 150\<rparr>] = [] \<and>
   includesAny (Some ''AI and Scam Alert'') [''ai''] \<and>
   \<not> excludesAll (Some ''AI and Scam Alert'') [''scam''] \<and>
   normalized newURL clock tg
     \<lparr>scrolls = sc, minClaps = Fin 100, limit = lm, include' = [''ai''], exclude' = [''scam''], headless = hl\<rparr>
     [x\<lparr>raw_title := Some ''AI Breakthrough'', raw_claps := Some 50\<rparr>] = [] \<and>
   filtered newURL clock tg
     \<lparr>scrolls = sc, minClaps = Fin 100, limit = lm, include' = [''ai''], exclude' = [''scam''], headless = hl\<rparr>
     [x\<lparr>raw_title := Some ''AI Breakthrough'', raw_claps := Some 150\<rparr>] =
     (case normalizeArticleUrl newURL (raw_url x) of
        None \<Rightarrow> []
      | Some u \<Rightarrow> [\<lparr>url = Some u, title = Some ''AI Breakthrough'', createdAt = clock 0,
                     claps = Some 150, comments = raw_comments x, tag = tg\<rparr>]) \<and>
   normalized exampleURL clock tg
     \<lparr>scrolls = sc, minClaps = Fin 100, limit = Fin 30, include' = [''ai''], exclude' = [''scam''], headless = hl\<rparr>
     [exItem] =
     [\<lparr>url = Some ''https://medium.com/p/abc123'', title = Some ''AI Breakthrough'',
       createdAt = clock 0, claps = Some 150, comments = Some 4, tag = tg\<rparr>] \<and>
   clapsAtLeast m (a\<lparr>claps := None\<rparr>)"
proof -
  have 1: "includesAny (Some ''AI and Scam Alert'') [''ai'']"
    by (simp add: includesAny_def orString_def toLowerCase_def)
  have 2: "\<not> excludesAll (Some ''AI and Scam Alert'') [''scam'']"
    by (simp add: excludesAll_def orString_def toLowerCase_def)
  have 3: "includesAny (Some ''AI Breakthrough'') [''ai'']"
    by (simp add: includesAny_def orString_def toLowerCase_def)
  have 4: "excludesAll (Some ''AI Breakthrough'') [''scam'']"
    by (simp add: excludesAll_def orString_def toLowerCase_def)
  have 5: "\<not> number_ge (Fin 50) (Fin 100)" "number_ge (Fin 150) (Fin 100)"
    by simp_all
  have 6: "slice0 (Fin 30) [y] = [y]" for y :: Article
    by (simp add: slice0_def)
  show ?thesis
    using 1 2 3 4 5
    by (simp add: normalized_def filtered_def clapsAtLeast_def orString_def enumerate_eq_zip
        example_normalized_url exItem_def slice0_Nil 6 split: option.splits)
qed

lemma set_slice0: "set (slice0 n xs) \<subseteq> set xs"
  by (auto simp: slice0_def Let_def split: number.splits dest: in_set_takeD)

lemma enumerate_map: "enumerate n (map f xs) = map (\<lambda>(i, x). (i, f x)) (enumerate n xs)"
  by (induction xs arbitrary: n) auto

text \<open>
  \<^bold>\<open>C7\<close>. Every record that the normalisation returns stems from one candidate of the
  input, and its \<^verbatim>\<open>createdAt\<close> is the clock reading taken when that candidate was mapped.
  The time fields of the candidates (\<^verbatim>\<open>datetime\<close> and \<^verbatim>\<open>timeLabel\<close>, the only input a
  date-label parser could read) have no influence on the result: replacing them by any
  other values gives the same records. \<^verbatim>\<open>parseDateLikeToISO\<close> (lines 97-135) has no caller.
\<close>

theorem normalized_createdAt_is_capture_time:
  "(\<forall>a \<in> set (normalized newURL clock tg opts items).
      \<exists>i < length items. createdAt a = clock i \<and>
         url a = normalizeArticleUrl newURL (raw_url (items ! i)) \<and>
         title a = raw_title (items ! i) \<and> claps a = raw_claps (items ! i)) \<and>
   normalized newURL clock tg opts (map (\<lambda>x. x\<lparr>datetime := d x, timeLabel := l x\<rparr>) items) =
   normalized newURL clock tg opts items"
proof -
  have "set (normalized newURL clock tg opts items) \<subseteq> set (filtered newURL clock tg opts items)"
    unfolding normalized_def using set_slice0 by fastforce
  moreover have "\<exists>i < length items. createdAt a = clock i \<and>
         url a = normalizeArticleUrl newURL (raw_url (items ! i)) \<and>
         title a = raw_title (items ! i) \<and> claps a = raw_claps (items ! i)"
    if "a \<in> set (filtered newURL clock tg opts items)" for a
    using that by (auto simp: filtered_def in_set_enumerate_eq)
  moreover have "filtered newURL clock tg opts (map (\<lambda>x. x\<lparr>datetime := d x, timeLabel := l x\<rparr>) items) =
      filtered newURL clock tg opts items"
    by (simp add: filtered_def enumerate_map split_def comp_def)
  ultimately show ?thesis
    by (auto simp: normalized_def)
qed

text \<open>
  C7 at the example candidate: its record carries the first clock reading, whatever its
  time fields say.
\<close>

theorem normalized_createdAt_is_capture_time_witness:
  "map createdAt
     (normalized exampleURL exClock ''programming''
        \<lparr>scrolls = Fin 6, minClaps = Fin 0, limit = Fin 30, include' = [], exclude' = [], headless = True\<rparr>
        [exItem]) = [''2025-09-08T07:53:00.000Z''] \<and>
   normalized exampleURL exClock ''programming''
     \<lparr>scrolls = Fin 6, minClaps = Fin 0, limit = Fin 30, include' = [], exclude' = [], headless = True\<rparr>
     [exItem\<lparr>datetime := Some ''2025-09-05T10:00:00.000Z'', timeLabel := Some ''Sep 5''\<rparr>] =
   normalized exampleURL exClock ''programming''
     \<lparr>scrolls = Fin 6, minClaps = Fin 0, limit = Fin 30, include' = [], exclude' = [], headless = True\<rparr>
     [exItem]"
proof -
  let ?opts = "\<lparr>scrolls = Fin 6, minClaps = Fin 0, limit = Fin 30, include' = [], exclude' = [], headless = True\<rparr>"
  have n: "normalized exampleURL exClock ''programming'' ?opts [exItem] =
      [\<lparr>url = Some ''https://medium.com/p/abc123'', title = Some ''AI Breakthrough'',
        createdAt = exClock 0, claps = Some 150, comments = Some 4, tag = ''programming''\<rparr>]"
    by (simp add: normalized_def filtered_def includesAny_def excludesAll_def clapsAtLeast_def
        enumerate_eq_zip example_normalized_url exItem_def slice0_def)
  note t = normalized_createdAt_is_capture_time [where newURL = exampleURL and clock = exClock
      and tg = "''programming''" and opts = ?opts and items = "[exItem]"
      and d = "\<lambda>_. Some ''2025-09-05T10:00:00.000Z''" and l = "\<lambda>_. Some ''Sep 5''"]
  from t [THEN conjunct1] have "createdAt (hd (normalized exampleURL exClock ''programming'' ?opts [exItem])) = exClock 0"
    unfolding n by simp
  moreover from t [THEN conjunct2] have "normalized exampleURL exClock ''programming'' ?opts
     [exItem\<lparr>datetime := Some ''2025-09-05T10:00:00.000Z'', timeLabel := Some ''Sep 5''\<rparr>] =
     normalized exampleURL exClock ''programming'' ?opts [exItem]"
    by simp
  ultimately show ?thesis
    by (simp add: n exClock_def)
qed

section \<open>Properties of the numeric token parser\<close>

lemmas toNum_eval = toNum_def keepChar_def isDigit_def regexMatch_def decimalValue_def
  digitsValue_def toLowerCase_def mulD_def toDouble_numeral Math_round_numeral

lemma toNum_Some:
  "toNum (Some str) =
     (case regexMatch (filter keepChar str) of
        None \<Rightarrow> None
      | Some (m1, m2) \<Rightarrow>
          (let n = toDouble (decimalValue m1); suf = toLowerCase m2
           in if suf = ''k'' then Some (Math_round (mulD n 1000))
              else if suf = ''m'' then Some (Math_round (mulD n 1000000))
              else Some (Math_round n)))"
  by (simp add: toNum_def regexMatch_def)

lemma regexMatch_None_iff: "regexMatch c = None \<longleftrightarrow> \<not> list_ex isDigit c"
proof -
  have "regexMatch c = None \<longleftrightarrow> dropWhile (\<lambda>c. \<not> isDigit c) c = []"
    by (simp add: regexMatch_def Let_def split_def)
  also have "\<dots> \<longleftrightarrow> (\<forall>x\<in>set c. \<not> isDigit x)"
    by (rule dropWhile_eq_Nil_conv)
  finally show ?thesis
    by (simp add: list_ex_iff)
qed

lemma takeWhile_run:
  "list_all P xs \<Longrightarrow> ys = [] \<or> \<not> P (hd ys) \<Longrightarrow> takeWhile P (xs @ ys) = xs"
  by (cases ys) (auto simp: list_all_iff takeWhile_append2)

lemma dropWhile_run:
  "list_all P xs \<Longrightarrow> ys = [] \<or> \<not> P (hd ys) \<Longrightarrow> dropWhile P (xs @ ys) = ys"
  by (cases ys) (auto simp: list_all_iff dropWhile_append2)

lemma takeWhile_all: "list_all P xs \<Longrightarrow> takeWhile P xs = xs"
  using takeWhile_run [of P xs "[]"] by simp

lemma dropWhile_all: "list_all P xs \<Longrightarrow> dropWhile P xs = []"
  using dropWhile_run [of P xs "[]"] by simp

lemma regexMatch_digits_first:
  assumes ip: "ip \<noteq> []" "list_all isDigit ip"
      and rest: "rest = [] \<or> \<not> isDigit (hd rest)"
  shows "regexMatch (ip @ rest) =
     (case (case rest of
              [] \<Rightarrow> (ip, [])
            | c # t \<Rightarrow>
                if c = CHR ''.'' \<and> takeWhile isDigit t \<noteq> []
                then (ip @ ''.'' @ takeWhile isDigit t, dropWhile isDigit t)
                else (ip, rest)) of
        (m1, r2) \<Rightarrow> Some (m1, case r2 of [] \<Rightarrow> [] | c # _ \<Rightarrow> if c \<in> set ''kKmM'' then [c] else []))"
proof -
  from ip have "isDigit (hd ip)"
    by (cases ip) auto
  then have d: "dropWhile (\<lambda>c. \<not> isDigit c) (ip @ rest) = ip @ rest"
    using ip by (cases ip) auto
  have t: "takeWhile isDigit (ip @ rest) = ip" and dr: "dropWhile isDigit (ip @ rest) = rest"
    using takeWhile_run [OF ip(2) rest] dropWhile_run [OF ip(2) rest] by auto
  have ne: "(ip @ rest = []) = False"
    using ip(1) by simp
  show ?thesis
    unfolding regexMatch_def Let_def d t dr ne if_False ..
qed

lemma regexMatch_integer:
  assumes ip: "ip \<noteq> []" "list_all isDigit ip"
      and rest: "rest = [] \<or> \<not> isDigit (hd rest)"
      and nofrac: "\<not> (\<exists>t. rest = CHR ''.'' # t \<and> t \<noteq> [] \<and> isDigit (hd t))"
  shows "regexMatch (ip @ rest) =
           Some (ip, case rest of [] \<Rightarrow> [] | c # _ \<Rightarrow> if c \<in> set ''kKmM'' then [c] else [])"
proof (cases rest)
  case Nil
  then show ?thesis
    unfolding regexMatch_digits_first [OF ip rest] by simp
next
  case (Cons c u)
  have "\<not> (c = CHR ''.'' \<and> takeWhile isDigit u \<noteq> [])"
    using nofrac Cons by (cases u) auto
  then show ?thesis
    unfolding regexMatch_digits_first [OF ip rest] using Cons by auto
qed

lemma regexMatch_fraction:
  assumes ip: "ip \<noteq> []" "list_all isDigit ip"
      and fp: "fp \<noteq> []" "list_all isDigit fp"
      and rest: "rest = [] \<or> \<not> isDigit (hd rest)"
  shows "regexMatch (ip @ ''.'' @ fp @ rest) =
           Some (ip @ ''.'' @ fp, case rest of [] \<Rightarrow> [] | c # _ \<Rightarrow> if c \<in> set ''kKmM'' then [c] else [])"
proof -
  have nd: "''.'' @ fp @ rest = [] \<or> \<not> isDigit (hd (''.'' @ fp @ rest))"
    by (simp add: isDigit_def)
  have t2: "takeWhile isDigit (fp @ rest) = fp" and d2: "dropWhile isDigit (fp @ rest) = rest"
    using takeWhile_run [OF fp(2) rest] dropWhile_run [OF fp(2) rest] by auto
  show ?thesis
    unfolding regexMatch_digits_first [OF ip nd] using fp(1) by (simp add: t2 d2)
qed

lemma decimalValue_integer:
  "list_all isDigit ip \<Longrightarrow> decimalValue ip = of_nat (digitsValue ip)"
  by (simp add: decimalValue_def takeWhile_all)

lemma decimalValue_fraction:
  "list_all isDigit ip \<Longrightarrow> decimalValue (ip @ ''.'' @ fp) = of_nat (digitsValue (ip @ fp)) / 10 ^ length fp"
  using takeWhile_run [of isDigit ip "''.'' @ fp"] by (simp add: decimalValue_def Let_def isDigit_def)

lemma toNum_None_iff: "toNum (Some str) = None \<longleftrightarrow> \<not> list_ex isDigit str"
proof -
  have "list_ex isDigit (filter keepChar str) = list_ex isDigit str"
    by (auto simp: list_ex_iff keepChar_def)
  moreover have "toNum (Some str) = None \<longleftrightarrow> regexMatch (filter keepChar str) = None"
    unfolding toNum_Some by (auto simp: Let_def split: option.splits)
  ultimately show ?thesis
    by (simp add: regexMatch_None_iff)
qed

lemma regexMatch_skip:
  "\<not> list_ex isDigit junk \<Longrightarrow> regexMatch (junk @ c) = regexMatch c"
  by (simp add: regexMatch_def list_ex_iff dropWhile_append2)

lemma toNum_skip:
  assumes "\<not> list_ex isDigit junk"
  shows "toNum (Some (junk @ s)) = toNum (Some s)"
proof -
  have "\<not> list_ex isDigit (filter keepChar junk)"
    using assms by (simp add: list_ex_iff)
  then show ?thesis
    unfolding toNum_Some by (simp add: regexMatch_skip)
qed

lemma toNum_filter: "toNum (Some (filter keepChar s)) = toNum (Some s)"
  unfolding toNum_Some by simp

lemma suffix_scale:
  "(let suf = toLowerCase (case rest of [] \<Rightarrow> [] | c # _ \<Rightarrow> if c \<in> set ''kKmM'' then [c] else [])
    in if suf = ''k'' then Some (Math_round (mulD n 1000))
       else if suf = ''m'' then Some (Math_round (mulD n 1000000))
       else Some (Math_round n)) = Some (Math_round (scaled n rest))"
proof -
  have lc: "toLowerCase ''k'' = ''k''" "toLowerCase ''K'' = ''k''"
           "toLowerCase ''m'' = ''m''" "toLowerCase ''M'' = ''m''" "toLowerCase [] = []"
    by (simp_all add: toLowerCase_def)
  show ?thesis
  proof (cases rest)
    case Nil
    then show ?thesis by (simp add: scaled_def lc)
  next
    case (Cons c u)
    consider "c = CHR ''k''" | "c = CHR ''K''" | "c = CHR ''m''" | "c = CHR ''M''" | "c \<notin> set ''kKmM''"
      by auto
    then show ?thesis
      by cases (simp_all add: Cons scaled_def lc)
  qed
qed

lemma scaled_exact:
  assumes "n * scaleOf rest < 2 ^ 53"
  shows "scaled (toDouble (of_nat n)) rest = Fin (of_nat (n * scaleOf rest))"
proof -
  have s: "1 \<le> scaleOf rest"
    by (simp add: scaleOf_def split: list.splits)
  have "n * 1 \<le> n * scaleOf rest"
    using s by (rule mult_le_mono2)
  then have "n \<le> n * scaleOf rest"
    by (simp only: mult_1_right)
  then have n: "n < 2 ^ 53"
    using assms by (rule le_less_trans)
  have m: "mulD (Fin (of_nat n)) (of_nat k) = Fin (of_nat (n * k))" if "n * k < 2 ^ 53" for k
    using toDouble_of_nat [OF that] by (simp add: mulD_def)
  show ?thesis
  proof (cases rest)
    case Nil
    then show ?thesis
      by (simp add: scaled_def scaleOf_def toDouble_of_nat [OF n])
  next
    case (Cons c u)
    show ?thesis
      using assms m [of 1000] m [of 1000000]
      by (auto simp: Cons scaled_def scaleOf_def toDouble_of_nat [OF n])
  qed
qed

lemma keepChar_digits: "list_all isDigit ds \<Longrightarrow> filter keepChar ds = ds"
  by (induction ds) (auto simp: keepChar_def)

lemma toNum_integer:
  assumes ip: "ip \<noteq> []" "list_all isDigit ip"
      and kept: "list_all keepChar rest"
      and rest: "rest = [] \<or> \<not> isDigit (hd rest)"
      and nofrac: "\<not> (\<exists>t. rest = CHR ''.'' # t \<and> t \<noteq> [] \<and> isDigit (hd t))"
  shows "toNum (Some (ip @ rest)) = Some (Math_round (scaled (toDouble (of_nat (digitsValue ip))) rest))"
proof -
  have "filter keepChar (ip @ rest) = ip @ rest"
    using kept by (simp add: keepChar_digits [OF ip(2)] list_all_iff)
  then show ?thesis
    unfolding toNum_Some
    by (simp only: regexMatch_integer [OF ip rest nofrac] decimalValue_integer [OF ip(2)]
        suffix_scale option.case prod.case) (simp only: Let_def)
qed

lemma toNum_integer_exact:
  assumes ip: "ip \<noteq> []" "list_all isDigit ip"
      and kept: "list_all keepChar rest"
      and rest: "rest = [] \<or> \<not> isDigit (hd rest)"
      and nofrac: "\<not> (\<exists>t. rest = CHR ''.'' # t \<and> t \<noteq> [] \<and> isDigit (hd t))"
      and small: "digitsValue ip * scaleOf rest < 2 ^ 53"
  shows "toNum (Some (ip @ rest)) = Some (Fin (of_nat (digitsValue ip * scaleOf rest)))"
  unfolding toNum_integer [OF ip kept rest nofrac] scaled_exact [OF small] Math_round_of_nat ..

lemma toNum_fraction:
  assumes ip: "ip \<noteq> []" "list_all isDigit ip"
      and fp: "fp \<noteq> []" "list_all isDigit fp"
      and kept: "list_all keepChar rest"
      and rest: "rest = [] \<or> \<not> isDigit (hd rest)"
  shows "toNum (Some (ip @ ''.'' @ fp @ rest)) =
           Some (Math_round (scaled (toDouble (of_nat (digitsValue (ip @ fp)) / 10 ^ length fp)) rest))"
proof -
  have "filter keepChar (ip @ ''.'' @ fp @ rest) = ip @ ''.'' @ fp @ rest"
    using kept by (simp add: keepChar_digits [OF ip(2)] keepChar_digits [OF fp(2)] list_all_iff keepChar_def)
  then show ?thesis
    unfolding toNum_Some
    by (simp only: regexMatch_fraction [OF ip fp rest] decimalValue_fraction [OF ip(2)]
        suffix_scale option.case prod.case) (simp only: Let_def)
qed

text \<open>
  \<^bold>\<open>C6\<close> (amended). \<^verbatim>\<open>toNum\<close> depends only on the digits, dots and letters k, K, m, M of
  its argument, and it reads the first decimal number of that stripped string, wherever it
  starts: characters before the first digit are skipped. When the stripped string starts
  with digits \<open>ip\<close> not followed by a fraction, the result is the double of \<open>ip\<close>, multiplied
  in double arithmetic by 1000 or 1000000 when the next character is k, K or m, M, and
  rounded to the nearest integer; as long as the product stays below \<open>2^53\<close> this is the
  exact product. When a dot and digits \<open>fp\<close> follow, the number is the double nearest to
  \<open>ip.fp\<close>. The result is null exactly for null, the empty string and a string without a
  digit. In particular ``1.2k'' gives 1200, ``3M'' gives 3000000 and ``42'' gives 42.
\<close>

theorem toNum_first_number:
  "toNum (Some (filter keepChar s)) = toNum (Some s) \<and>
   (\<not> list_ex isDigit junk \<longrightarrow> toNum (Some (junk @ s)) = toNum (Some s)) \<and>
   (ip \<noteq> [] \<and> list_all isDigit ip \<and> list_all keepChar rest \<and>
    (rest = [] \<or> \<not> isDigit (hd rest)) \<and>
    \<not> (\<exists>t. rest = CHR ''.'' # t \<and> t \<noteq> [] \<and> isDigit (hd t)) \<longrightarrow>
      toNum (Some (ip @ rest)) =
        Some (Math_round (scaled (toDouble (of_nat (digitsValue ip))) rest)) \<and>
      (digitsValue ip * scaleOf rest < 2 ^ 53 \<longrightarrow>
         toNum (Some (ip @ rest)) = Some (Fin (of_nat (digitsValue ip * scaleOf rest))))) \<and>
   (ip \<noteq> [] \<and> list_all isDigit ip \<and> fp \<noteq> [] \<and> list_all isDigit fp \<and>
    list_all keepChar rest \<and> (rest = [] \<or> \<not> isDigit (hd rest)) \<longrightarrow>
      toNum (Some (ip @ ''.'' @ fp @ rest)) =
        Some (Math_round
               (scaled (toDouble (of_nat (digitsValue (ip @ fp)) / 10 ^ length fp)) rest))) \<and>
   (toNum x = None \<longleftrightarrow> (case x of None \<Rightarrow> True | Some str \<Rightarrow> \<not> list_ex isDigit str)) \<and>
   toNum (Some ''1.2k'') = Some (Fin 1200) \<and>
   toNum (Some ''3M'') = Some (Fin 3000000) \<and>
   toNum (Some ''42'') = Some (Fin 42) \<and>
   toNum (Some []) = None \<and>
   toNum (Some ''abc'') = None"
proof -
  have e: "toNum (Some ''3M'') = Some (Fin 3000000)"
    "toNum (Some ''42'') = Some (Fin 42)" "toNum (Some []) = None" "toNum (Some ''abc'') = None"
    by (simp_all add: toNum_eval)
  have "toNum (Some ''1.2k'') = Some (Math_round (mulD (toDouble (6 / 5)) 1000))"
    by (simp add: toNum_def keepChar_def isDigit_def regexMatch_def decimalValue_def
        digitsValue_def toLowerCase_def)
  then have k: "toNum (Some ''1.2k'') = Some (Fin 1200)"
    by (simp add: mulD_1_2_k Math_round_numeral)
  have n: "toNum x = None \<longleftrightarrow> (case x of None \<Rightarrow> True | Some str \<Rightarrow> \<not> list_ex isDigit str)"
    by (cases x) (simp_all add: toNum_None_iff, simp add: toNum_def)
  show ?thesis
    using toNum_filter [of s] toNum_skip [of junk s] toNum_integer [of ip rest]
      toNum_integer_exact [of ip rest] toNum_fraction [of ip fp rest] n e k
    by blast
qed

text \<open>
  The amended C6 at ``Mark 3'' (stripped to ``Mk3'', first number 3), at ``1.2k'', and at
  ``0.5005k'', where the product of the doubles is 500.49999999999994 and the result is
  500, not the 501 of exact arithmetic.
\<close>

theorem toNum_first_number_witness:
  "toNum (Some ''Mark 3'') = Some (Fin 3) \<and> toNum (Some ''1.2k'') = Some (Fin 1200) \<and>
   toNum (Some ''0.5005k'') = Some (Fin 500)"
proof -
  have 1: "toNum (Some ''Mark 3'') = toNum (Some ''Mk3'')"
    using toNum_first_number [where s = "''Mark 3''", THEN conjunct1]
    by (simp add: keepChar_def isDigit_def)
  have 2: "toNum (Some (''Mk'' @ ''3'')) = toNum (Some ''3'')"
    using toNum_first_number [where junk = "''Mk''" and s = "''3''", THEN conjunct2, THEN conjunct1]
    by (simp add: isDigit_def)
  have d: "isDigit CHR ''3''" "digitsValue ''3'' * scaleOf [] < 2 ^ 53"
    by (simp_all add: isDigit_def digitsValue_def scaleOf_def)
  have 3: "toNum (Some (''3'' @ [])) = Some (Fin (of_nat (digitsValue ''3'' * scaleOf [])))"
    using toNum_first_number [where ip = "''3''" and rest = "[]",
        THEN conjunct2, THEN conjunct2, THEN conjunct1] d
    by (auto simp del: of_nat_mult)
  have 4: "toNum (Some (''1'' @ ''.'' @ ''2'' @ ''k'')) =
      Some (Math_round (scaled (toDouble (of_nat (digitsValue (''1'' @ ''2'')) / 10 ^ length ''2'')) ''k''))"
    using toNum_first_number [where ip = "''1''" and fp = "''2''" and rest = "''k''",
        THEN conjunct2, THEN conjunct2, THEN conjunct2, THEN conjunct1]
    by (simp add: isDigit_def keepChar_def)
  have 5: "toNum (Some (''0'' @ ''.'' @ ''5005'' @ ''k'')) =
      Some (Math_round (scaled (toDouble (of_nat (digitsValue (''0'' @ ''5005'')) / 10 ^ length ''5005'')) ''k''))"
    using toNum_first_number [where ip = "''0''" and fp = "''5005''" and rest = "''k''",
        THEN conjunct2, THEN conjunct2, THEN conjunct2, THEN conjunct1]
    by (simp add: isDigit_def keepChar_def)
  have r: "Math_round (Fin (8804889115230207 / 17592186044416)) = Fin 500"
    by (simp add: Math_round_def floor_rat_numeral)
  show ?thesis
    using 1 2 3 4 5
    by (simp add: digitsValue_def scaleOf_def scaled_def mulD_1_2_k mulD_0_5005_k
        Math_round_numeral r)
qed

text \<open>
  C6 as stated fails on a string whose number is not leading: ``k5'' is stripped to
  itself, the expression matches the 5 inside it and \<^verbatim>\<open>toNum\<close> returns 5, where a match
  of a leading number returns null.
\<close>

theorem toNum_not_leading_counterexample:
  "toNum (Some ''k5'') = Some (Fin 5) \<and> toNum_spec (Some ''k5'') = None"
  by (simp add: toNum_eval toNum_spec_def leadingMatch_def)

section \<open>Properties of the argument parser\<close>

lemma orNumber_truthy: "d \<noteq> NaN \<Longrightarrow> d \<noteq> Fin 0 \<Longrightarrow> orNumber x d \<noteq> NaN \<and> orNumber x d \<noteq> Fin 0"
  by (simp add: orNumber_def)

lemma orNumber_not_NaN: "d \<noteq> NaN \<Longrightarrow> orNumber x d \<noteq> NaN"
  by (simp add: orNumber_def)

lemma applyOption_numericOk: "numericOk p \<Longrightarrow> numericOk (applyOption a nxt p)"
  by (simp add: applyOption_def numericOk_def orNumber_truthy orNumber_not_NaN)

lemma parseLoop_numericOk: "numericOk p \<Longrightarrow> numericOk (parseLoop args p)"
  by (induction args p rule: parseLoop.induct) (simp_all add: applyOption_numericOk)

lemma parseLoop_falsy:
  assumes "Number v = Fin 0 \<or> Number v = NaN"
  shows "parseLoop (''--scrolls'' # v # rest) p = parseLoop rest (p\<lparr>scrolls := Fin 6\<rparr>)"
    and "parseLoop (''--minClaps'' # v # rest) p = parseLoop rest (p\<lparr>minClaps := Fin 0\<rparr>)"
    and "parseLoop (''--limit'' # v # rest) p = parseLoop rest (p\<lparr>limit := Fin 30\<rparr>)"
  using assms by (auto simp: isOption_def applyOption_def orNumber_def)

lemma parseLoop_truthy:
  assumes "Number v \<noteq> Fin 0" "Number v \<noteq> NaN"
  shows "parseLoop (''--scrolls'' # v # rest) p = parseLoop rest (p\<lparr>scrolls := Number v\<rparr>)"
    and "parseLoop (''--minClaps'' # v # rest) p = parseLoop rest (p\<lparr>minClaps := Number v\<rparr>)"
    and "parseLoop (''--limit'' # v # rest) p = parseLoop rest (p\<lparr>limit := Number v\<rparr>)"
  using assms by (auto simp: isOption_def applyOption_def orNumber_def)

lemma parseArgs_numericOk:
  assumes "parseArgs args = Inr r"
  shows "numericOk r"
proof -
  from assms obtain a0 rest' where r: "r = parseLoop rest'
      \<lparr>scrolls = Fin 6, minClaps = Fin 0, limit = Fin 30, include' = [], exclude' = [],
       headless = True, tags = keywordList a0\<rparr>"
    by (auto simp: parseArgs_def split: list.splits)
  show ?thesis
    unfolding r by (rule parseLoop_numericOk) (simp add: numericOk_def)
qed

lemmas Number_eval = Number_def trim_def isWhiteSpace_def nonDecimal_def unsignedDecimal_def
  isDigit_def exponentPart_def digitsValue_def toDouble_0 toDouble_numeral

lemma Number_0: "Number ''0'' = Fin 0"
  by (simp add: Number_eval)

lemma Number_abc: "Number ''abc'' = NaN"
  by (simp add: Number_eval)

lemma Number_0_4: "Number ''0.4'' = Fin (3602879701896397 / 9007199254740992)"
  by (simp add: Number_eval toDouble_0_4)

lemma Number_1e_400: "Number ''1e-400'' = Fin 0"
proof -
  have "Number ''1e-400'' = toDouble (1 / 10 ^ 400)"
    by (simp add: Number_eval)
  then show ?thesis
    by (simp only: toDouble_1e_400)
qed

lemma Number_1e400: "Number ''1e400'' = PosInf"
proof -
  have "Number ''1e400'' = toDouble (10 ^ 400)"
    by (simp add: Number_eval)
  then show ?thesis
    by (simp only: toDouble_1e400)
qed

lemma Number_minus_Infinity: "Number ''-Infinity'' = NegInf"
  by (simp add: Number_eval)

text \<open>The limits for which \<^verbatim>\<open>slice(0, limit)\<close> is empty whatever the array.\<close>

lemma slice0_zero:
  assumes "l = NaN \<or> l = NegInf \<or> (\<exists>q. l = Fin q \<and> - 1 < q \<and> q < 1)"
  shows "slice0 l xs = []"
proof -
  have "\<lfloor>q\<rfloor> = 0" if "0 \<le> q" "q < 1" for q :: rat
    using that by linarith
  moreover have "\<lceil>q\<rceil> = 0" if "- 1 < q" "\<not> 0 \<le> q" for q :: rat
    using that by linarith
  ultimately show ?thesis
    using assms by (auto simp: slice0_def)
qed

lemma slice0_not_zero:
  assumes "l = PosInf \<or> (\<exists>q. l = Fin q \<and> (q \<le> - 1 \<or> 1 \<le> q))"
  shows "\<exists>xs :: 'a list. slice0 l xs \<noteq> []"
proof -
  consider "l = PosInf" | q where "l = Fin q" "1 \<le> q" | q where "l = Fin q" "q \<le> - 1"
    using assms by blast
  then show ?thesis
  proof cases
    case 1
    then have "slice0 l [undefined :: 'a] \<noteq> []"
      by (simp add: slice0_def)
    then show ?thesis ..
  next
    case 2
    then have "1 \<le> \<lfloor>q\<rfloor>"
      by linarith
    then have "slice0 l [undefined :: 'a] \<noteq> []"
      using 2 by (simp add: slice0_def Let_def)
    then show ?thesis ..
  next
    case 3
    define n where "n = nat (- \<lceil>q\<rceil>)"
    have c: "\<lceil>q\<rceil> \<le> - 1"
      using 3(2) by linarith
    then have "0 \<le> - \<lceil>q\<rceil>"
      by linarith
    then have "int n = - \<lceil>q\<rceil>"
      unfolding n_def by (rule int_nat_eq [THEN trans, OF if_P])
    then have s: "int (Suc n) + \<lceil>q\<rceil> = 1"
      by simp
    have neg: "\<not> 0 \<le> q" "\<lceil>q\<rceil> < 0"
      using 3(2) c by linarith+
    have "slice0 (Fin q) (replicate (Suc n) (undefined :: 'a)) =
          take (nat (max (int (length (replicate (Suc n) (undefined :: 'a))) + \<lceil>q\<rceil>) 0))
            (replicate (Suc n) (undefined :: 'a))"
      by (simp only: slice0_def Let_def number.case neg if_False if_True)
    also have "\<dots> = take 1 (replicate (Suc n) (undefined :: 'a))"
      by (simp only: length_replicate s) simp
    also have "\<dots> \<noteq> []"
      by simp
    finally have "slice0 l (replicate (Suc n) (undefined :: 'a)) \<noteq> []"
      unfolding 3(1) .
    then show ?thesis ..
  qed
qed

lemma slice0_zero_iff:
  "(\<forall>xs :: 'a list. slice0 l xs = []) \<longleftrightarrow>
   l = NaN \<or> l = NegInf \<or> (\<exists>q. l = Fin q \<and> - 1 < q \<and> q < 1)"
proof
  assume a: "\<forall>xs :: 'a list. slice0 l xs = []"
  show "l = NaN \<or> l = NegInf \<or> (\<exists>q. l = Fin q \<and> - 1 < q \<and> q < 1)"
  proof (rule ccontr)
    assume n: "\<not> (l = NaN \<or> l = NegInf \<or> (\<exists>q. l = Fin q \<and> - 1 < q \<and> q < 1))"
    have "l = PosInf \<or> (\<exists>q. l = Fin q \<and> (q \<le> - 1 \<or> 1 \<le> q))"
    proof (cases l)
      case (Fin q)
      then show ?thesis
        using n by auto
    qed (use n in simp_all)
    from slice0_not_zero [OF this, where ?'a = 'a] a show False
      by blast
  qed
next
  assume "l = NaN \<or> l = NegInf \<or> (\<exists>q. l = Fin q \<and> - 1 < q \<and> q < 1)"
  then show "\<forall>xs :: 'a list. slice0 l xs = []"
    using slice0_zero by blast
qed

text \<open>
  \<^bold>\<open>C10\<close> (amended). When the value \<open>v\<close> that follows \<^verbatim>\<open>--scrolls\<close>, \<^verbatim>\<open>--minClaps\<close> or
  \<^verbatim>\<open>--limit\<close> converts to 0 or to NaN, the option is set to its default (6, 0, 30),
  whatever it was before, and parsing goes on after \<open>v\<close>; any other value is taken as it
  converts. \<^verbatim>\<open>--limit 0\<close> yields the limit 30 and \<^verbatim>\<open>--scrolls 0\<close> yields 6 scrolls. For
  every argument list the parsed limit and the parsed number of scrolls are neither 0 nor
  NaN. This does not keep the limit from being zero in effect: \<^verbatim>\<open>slice(0, limit)\<close> is
  empty for every array exactly when the limit is NaN, \<^verbatim>\<open>-Infinity\<close> or a number
  strictly between -1 and 1, and the parser keeps \<^verbatim>\<open>-Infinity\<close> and every such number
  other than 0; with such a limit \<open>normalized\<close> is empty for every scrape.
\<close>

theorem parseArgs_numeric_fallback:
  "(Number v = Fin 0 \<or> Number v = NaN \<longrightarrow>
      parseLoop (''--scrolls'' # v # rest) p = parseLoop rest (p\<lparr>scrolls := Fin 6\<rparr>) \<and>
      parseLoop (''--minClaps'' # v # rest) p = parseLoop rest (p\<lparr>minClaps := Fin 0\<rparr>) \<and>
      parseLoop (''--limit'' # v # rest) p = parseLoop rest (p\<lparr>limit := Fin 30\<rparr>)) \<and>
   (Number v \<noteq> Fin 0 \<and> Number v \<noteq> NaN \<longrightarrow>
      parseLoop (''--scrolls'' # v # rest) p = parseLoop rest (p\<lparr>scrolls := Number v\<rparr>) \<and>
      parseLoop (''--minClaps'' # v # rest) p = parseLoop rest (p\<lparr>minClaps := Number v\<rparr>) \<and>
      parseLoop (''--limit'' # v # rest) p = parseLoop rest (p\<lparr>limit := Number v\<rparr>)) \<and>
   parseArgs [t, ''--limit'', ''0''] =
     Inr \<lparr>scrolls = Fin 6, minClaps = Fin 0, limit = Fin 30, include' = [], exclude' = [],
          headless = True, tags = keywordList t\<rparr> \<and>
   parseArgs [t, ''--scrolls'', ''0''] =
     Inr \<lparr>scrolls = Fin 6, minClaps = Fin 0, limit = Fin 30, include' = [], exclude' = [],
          headless = True, tags = keywordList t\<rparr> \<and>
   (parseArgs args = Inr r \<longrightarrow>
      limit r \<noteq> Fin 0 \<and> limit r \<noteq> NaN \<and> scrolls r \<noteq> Fin 0 \<and> scrolls r \<noteq> NaN \<and> minClaps r \<noteq> NaN) \<and>
   ((\<forall>xs :: Article list. slice0 l xs = []) \<longleftrightarrow>
      l = NaN \<or> l = NegInf \<or> (\<exists>q. l = Fin q \<and> - 1 < q \<and> q < 1)) \<and>
   (Number v = NegInf \<or> (\<exists>q. Number v = Fin q \<and> q \<noteq> 0 \<and> - 1 < q \<and> q < 1) \<longrightarrow>
      parseArgs [t, ''--limit'', v] =
        Inr \<lparr>scrolls = Fin 6, minClaps = Fin 0, limit = Number v, include' = [], exclude' = [],
             headless = True, tags = keywordList t\<rparr> \<and>
      normalized newURL clock tg
        \<lparr>scrolls = Fin 6, minClaps = Fin 0, limit = Number v, include' = [], exclude' = [],
         headless = True, tags = keywordList t\<rparr> items = [])"
proof -
  have inv: "limit r \<noteq> Fin 0 \<and> limit r \<noteq> NaN \<and> scrolls r \<noteq> Fin 0 \<and> scrolls r \<noteq> NaN \<and> minClaps r \<noteq> NaN"
    if "parseArgs args = Inr r"
    using parseArgs_numericOk [OF that] by (simp add: numericOk_def)
  have ex: "parseArgs [t, ''--limit'', ''0''] =
     Inr \<lparr>scrolls = Fin 6, minClaps = Fin 0, limit = Fin 30, include' = [], exclude' = [],
          headless = True, tags = keywordList t\<rparr>"
    "parseArgs [t, ''--scrolls'', ''0''] =
     Inr \<lparr>scrolls = Fin 6, minClaps = Fin 0, limit = Fin 30, include' = [], exclude' = [],
          headless = True, tags = keywordList t\<rparr>"
    by (simp_all add: parseArgs_def isOption_def applyOption_def orNumber_def Number_0)
  have z: "parseArgs [t, ''--limit'', v] =
        Inr \<lparr>scrolls = Fin 6, minClaps = Fin 0, limit = Number v, include' = [], exclude' = [],
             headless = True, tags = keywordList t\<rparr> \<and>
      normalized newURL clock tg
        \<lparr>scrolls = Fin 6, minClaps = Fin 0, limit = Number v, include' = [], exclude' = [],
         headless = True, tags = keywordList t\<rparr> items = []"
    if h: "Number v = NegInf \<or> (\<exists>q. Number v = Fin q \<and> q \<noteq> 0 \<and> - 1 < q \<and> q < 1)"
  proof
    have "Number v \<noteq> Fin 0" "Number v \<noteq> NaN"
      using h by auto
    then show "parseArgs [t, ''--limit'', v] =
        Inr \<lparr>scrolls = Fin 6, minClaps = Fin 0, limit = Number v, include' = [], exclude' = [],
             headless = True, tags = keywordList t\<rparr>"
      by (simp add: parseArgs_def isOption_def applyOption_def orNumber_def)
    have "Number v = NaN \<or> Number v = NegInf \<or> (\<exists>q. Number v = Fin q \<and> - 1 < q \<and> q < 1)"
      using h by blast
    then show "normalized newURL clock tg
        \<lparr>scrolls = Fin 6, minClaps = Fin 0, limit = Number v, include' = [], exclude' = [],
         headless = True, tags = keywordList t\<rparr> items = []"
      by (simp add: normalized_def slice0_zero)
  qed
  show ?thesis
    using parseLoop_falsy [of v rest p] parseLoop_truthy [of v rest p] inv ex
      slice0_zero_iff [of l, where ?'a = Article] z
    by blast
qed

text \<open>
  The amended C10 at \<^verbatim>\<open>--scrolls abc --limit 0\<close>, which resets both options, at
  \<^verbatim>\<open>--limit 1e-400\<close>, which is 0 as a double and falls back to 30, at \<^verbatim>\<open>--limit 1e400\<close>,
  which is kept as \<^verbatim>\<open>Infinity\<close>, and at the limits 0.4 and \<^verbatim>\<open>-Infinity\<close>, which are kept
  and leave no article of a scrape.
\<close>

theorem parseArgs_numeric_fallback_witness:
  "Number ''abc'' = NaN \<and>
   parseLoop [''--scrolls'', ''abc'', ''--limit'', ''0'']
     \<lparr>scrolls = Fin 9, minClaps = Fin 5, limit = Fin 7, include' = [], exclude' = [],
      headless = True, tags = [''ai'']\<rparr> =
     \<lparr>scrolls = Fin 6, minClaps = Fin 5, limit = Fin 30, include' = [], exclude' = [],
      headless = True, tags = [''ai'']\<rparr> \<and>
   Number ''1e-400'' = Fin 0 \<and>
   parseLoop [''--limit'', ''1e-400'']
     \<lparr>scrolls = Fin 9, minClaps = Fin 5, limit = Fin 7, include' = [], exclude' = [],
      headless = True, tags = [''ai'']\<rparr> =
     \<lparr>scrolls = Fin 9, minClaps = Fin 5, limit = Fin 30, include' = [], exclude' = [],
      headless = True, tags = [''ai'']\<rparr> \<and>
   Number ''1e400'' = PosInf \<and>
   parseLoop [''--limit'', ''1e400'']
     \<lparr>scrolls = Fin 9, minClaps = Fin 5, limit = Fin 7, include' = [], exclude' = [],
      headless = True, tags = [''ai'']\<rparr> =
     \<lparr>scrolls = Fin 9, minClaps = Fin 5, limit = PosInf, include' = [], exclude' = [],
      headless = True, tags = [''ai'']\<rparr> \<and>
   Number ''0.4'' = Fin (3602879701896397 / 9007199254740992) \<and>
   parseArgs [''ai'', ''--limit'', ''0.4''] =
     Inr \<lparr>scrolls = Fin 6, minClaps = Fin 0, limit = Fin (3602879701896397 / 9007199254740992),
          include' = [], exclude' = [], headless = True, tags = [''ai'']\<rparr> \<and>
   normalized exampleURL exClock ''ai''
     \<lparr>scrolls = Fin 6, minClaps = Fin 0, limit = Fin (3602879701896397 / 9007199254740992),
      include' = [], exclude' = [], headless = True, tags = [''ai'']\<rparr> [exItem] = [] \<and>
   Number ''-Infinity'' = NegInf \<and>
   normalized exampleURL exClock ''ai''
     \<lparr>scrolls = Fin 6, minClaps = Fin 0, limit = NegInf,
      include' = [], exclude' = [], headless = True, tags = [''ai'']\<rparr> [exItem] = [] \<and>
   slice0 (Fin (3602879701896397 / 9007199254740992)) [exOld] = [] \<and>
   limit \<lparr>scrolls = Fin 6, minClaps = Fin 0, limit = Fin (3602879701896397 / 9007199254740992),
          include' = [], exclude' = [], headless = True, tags = [''ai'']\<rparr> \<noteq> Fin 0"
proof -
  let ?p = "\<lparr>scrolls = Fin 9, minClaps = Fin 5, limit = Fin 7, include' = [], exclude' = [],
      headless = True, tags = [''ai'']\<rparr>"
  let ?q = "3602879701896397 / 9007199254740992 :: rat"
  let ?r = "\<lparr>scrolls = Fin 6, minClaps = Fin 0, limit = Fin ?q,
      include' = [], exclude' = [], headless = True, tags = [''ai'']\<rparr>"
  have kw: "keywordList ''ai'' = [''ai'']"
    by (simp add: keywordList_def trim_def isWhiteSpace_def)
  have 1: "parseLoop [''--scrolls'', ''abc'', ''--limit'', ''0''] ?p =
           parseLoop [''--limit'', ''0''] (?p\<lparr>scrolls := Fin 6\<rparr>)"
    using parseArgs_numeric_fallback [where v = "''abc''" and rest = "[''--limit'', ''0'']" and p = ?p]
      Number_abc
    by blast
  have 2: "parseLoop [''--limit'', ''0''] (?p\<lparr>scrolls := Fin 6\<rparr>) =
           parseLoop [] (?p\<lparr>scrolls := Fin 6, limit := Fin 30\<rparr>)"
    using parseArgs_numeric_fallback [where v = "''0''" and rest = "[]" and p = "?p\<lparr>scrolls := Fin 6\<rparr>"]
      Number_0
    by simp
  have 3: "parseLoop [''--limit'', ''1e-400''] ?p = parseLoop [] (?p\<lparr>limit := Fin 30\<rparr>)"
    using parseArgs_numeric_fallback [where v = "''1e-400''" and rest = "[]" and p = ?p]
      Number_1e_400
    by blast
  have 4: "parseLoop [''--limit'', ''1e400''] ?p = parseLoop [] (?p\<lparr>limit := Number ''1e400''\<rparr>)"
    using parseArgs_numeric_fallback [where v = "''1e400''" and rest = "[]" and p = ?p]
      Number_1e400
    by simp
  have b: "?q \<noteq> 0 \<and> - 1 < ?q \<and> ?q < 1"
    by simp
  have 5: "parseArgs [''ai'', ''--limit'', ''0.4''] =
        Inr \<lparr>scrolls = Fin 6, minClaps = Fin 0, limit = Number ''0.4'', include' = [], exclude' = [],
             headless = True, tags = keywordList ''ai''\<rparr> \<and>
      normalized exampleURL exClock ''ai''
        \<lparr>scrolls = Fin 6, minClaps = Fin 0, limit = Number ''0.4'', include' = [], exclude' = [],
         headless = True, tags = keywordList ''ai''\<rparr> [exItem] = []"
    using parseArgs_numeric_fallback [where v = "''0.4''" and t = "''ai''" and newURL = exampleURL
        and clock = exClock and tg = "''ai''" and items = "[exItem]"] Number_0_4 b
    by blast
  have 6: "normalized exampleURL exClock ''ai''
        \<lparr>scrolls = Fin 6, minClaps = Fin 0, limit = Number ''-Infinity'', include' = [], exclude' = [],
         headless = True, tags = keywordList ''ai''\<rparr> [exItem] = []"
    using parseArgs_numeric_fallback [where v = "''-Infinity''" and t = "''ai''" and newURL = exampleURL
        and clock = exClock and tg = "''ai''" and items = "[exItem]"] Number_minus_Infinity
    by blast
  have 7: "slice0 (Fin ?q) [exOld] = []"
    using parseArgs_numeric_fallback [where l = "Fin ?q"] b
    by blast
  have 8: "limit ?r \<noteq> Fin 0"
    using parseArgs_numeric_fallback [where args = "[''ai'', ''--limit'', ''0.4'']" and r = ?r] 5
    by (simp add: Number_0_4 kw)
  show ?thesis
    using 1 2 3 4 5 6 7 8
    by (simp add: Number_abc Number_1e_400 Number_1e400 Number_0_4 Number_minus_Infinity kw)
qed

text \<open>
  C10 as stated fails at \<^verbatim>\<open>--limit 0.4\<close>: 0.4 is not 0, so the parser keeps it, and
  \<^verbatim>\<open>slice(0, 0.4)\<close> then returns no article of a scrape that has one under the default
  limit: a zero per-tag result limit has been configured.
\<close>

theorem parseArgs_fractional_limit_counterexample:
  "parseArgs [''ai'', ''--limit'', ''0.4''] =
     Inr \<lparr>scrolls = Fin 6, minClaps = Fin 0, limit = Fin (3602879701896397 / 9007199254740992),
          include' = [], exclude' = [], headless = True, tags = [''ai'']\<rparr> \<and>
   normalized exampleURL exClock ''ai''
     \<lparr>scrolls = Fin 6, minClaps = Fin 0, limit = Fin (3602879701896397 / 9007199254740992),
      include' = [], exclude' = [], headless = True, tags = [''ai'']\<rparr> [exItem] = [] \<and>
   normalized exampleURL exClock ''ai''
     \<lparr>scrolls = Fin 6, minClaps = Fin 0, limit = Fin 30,
      include' = [], exclude' = [], headless = True, tags = [''ai'']\<rparr> [exItem] =
     [\<lparr>url = Some ''https://medium.com/p/abc123'', title = Some ''AI Breakthrough'',
       createdAt = ''2025-09-08T07:53:00.000Z'', claps = Some 150, comments = Some 4,
       tag = ''ai''\<rparr>]"
proof -
  have kw: "keywordList ''ai'' = [''ai'']"
    by (simp add: keywordList_def trim_def isWhiteSpace_def)
  have a: "parseArgs [''ai'', ''--limit'', ''0.4''] =
     Inr \<lparr>scrolls = Fin 6, minClaps = Fin 0, limit = Fin (3602879701896397 / 9007199254740992),
          include' = [], exclude' = [], headless = True, tags = [''ai'']\<rparr>"
    by (simp add: parseArgs_def isOption_def applyOption_def orNumber_def Number_0_4 kw)
  have b: "normalized exampleURL exClock ''ai''
     \<lparr>scrolls = Fin 6, minClaps = Fin 0, limit = Fin (3602879701896397 / 9007199254740992),
      include' = [], exclude' = [], headless = True, tags = [''ai'']\<rparr> [exItem] = []"
    by (simp add: normalized_def slice0_def floor_rat_numeral)
  have c: "normalized exampleURL exClock ''ai''
     \<lparr>scrolls = Fin 6, minClaps = Fin 0, limit = Fin 30,
      include' = [], exclude' = [], headless = True, tags = [''ai'']\<rparr> [exItem] =
     [\<lparr>url = Some ''https://medium.com/p/abc123'', title = Some ''AI Breakthrough'',
       createdAt = ''2025-09-08T07:53:00.000Z'', claps = Some 150, comments = Some 4,
       tag = ''ai''\<rparr>]"
    by (simp add: normalized_def filtered_def includesAny_def excludesAll_def clapsAtLeast_def
        enumerate_eq_zip example_normalized_url exItem_def slice0_def exClock_def)
  show ?thesis
    using a b c by (intro conjI)
qed

section \<open>Properties of the store reader\<close>

text \<open>
  \<^bold>\<open>C9\<close>. \<^verbatim>\<open>loadExistingData\<close> always returns a store and never an exception; when
  reading the file fails, or when the file is read and parsing its content fails, the
  store it returns is the empty mapping.
\<close>

theorem loadExistingData_recovers:
  "(\<exists>v. loadExistingData readFile JSON_parse filePath = Inr v) \<and>
   ((\<exists>e. readFile filePath = Inl e) \<or> (\<exists>content e. readFile filePath = Inr content \<and> JSON_parse content = Inl e)
      \<longrightarrow> loadExistingData readFile JSON_parse filePath = Inr Map.empty)"
  by (auto simp: loadExistingData_def split: sum.splits)

text \<open>C9 at a missing file and at a file whose content is cut off.\<close>

theorem loadExistingData_recovers_witness:
  "loadExistingData (\<lambda>p. Inl (Exn ''ENOENT: no such file or directory'')) (\<lambda>c. Inr Map.empty)
     ''medium_recommended/medium-articles-2025-09.json'' = Inr Map.empty \<and>
   loadExistingData (\<lambda>p. Inr ''{ programming: ['') (\<lambda>c. Inl (Exn ''SyntaxError: Unexpected token''))
     ''medium_recommended/medium-articles-2025-09.json'' = Inr Map.empty"
  using loadExistingData_recovers [of "\<lambda>p. Inl (Exn ''ENOENT: no such file or directory'')"
      "\<lambda>c. Inr Map.empty" "''medium_recommended/medium-articles-2025-09.json''"]
    loadExistingData_recovers [of "\<lambda>p. Inr ''{ programming: [''"
      "\<lambda>c. Inl (Exn ''SyntaxError: Unexpected token'')"
      "''medium_recommended/medium-articles-2025-09.json''"]
  by simp

section \<open>Properties of the merge\<close>

lemma Map_of_rev: "Map_of es = map_of (rev es)"
proof -
  have "fold (\<lambda>kv m. m(fst kv \<mapsto> snd kv)) es m = m ++ map_of (rev es)" for m :: "'a \<rightharpoonup> 'b"
    by (induction es arbitrary: m) (auto simp: map_add_def fun_eq_iff split: option.splits)
  then show ?thesis by (simp add: Map_of_def)
qed


lemma Map_of_None_iff: "Map_of es k = None \<longleftrightarrow> k \<notin> fst ` set es"
  by (simp add: Map_of_rev map_of_eq_None_iff)

text \<open>The loop over the fresh articles writes only \<^verbatim>\<open>claps\<close> and \<^verbatim>\<open>comments\<close>.\<close>

lemma forEachNew_frame:
  "forEachNew eu ns (h, a, b) = (h', a', b') \<Longrightarrow>
     url (h' r) = url (h r) \<and> title (h' r) = title (h r) \<and>
     createdAt (h' r) = createdAt (h r) \<and> tag (h' r) = tag (h r)"
proof (induction ns arbitrary: h a b)
  case Nil
  then show ?case by simp
next
  case (Cons n ns)
  then show ?case
    by (auto split: option.splits simp: Let_def)
qed

lemma forEachNew_no_hit:
  "\<forall>n\<in>set ns. eu (url (h n)) = None \<Longrightarrow> forEachNew eu ns (h, a, b) = (h, a + length ns, b)"
  by (induction ns arbitrary: a) auto

lemma mergeArticles_eq:
  assumes "forEachNew (Map_of (map (\<lambda>a. (url (h a), a)) (existingArticlesOf ex tg))) new (h, 0, 0) = (h', nc, uc)"
  shows "mergeArticles h ex new tg =
     (h', \<lparr>merged = sortByClaps h' (new @ filter (\<lambda>e. \<not> list_ex (\<lambda>n. url (h' n) = url (h' e)) new) (existingArticlesOf ex tg)),
           newCount = nc, updatedCount = uc\<rparr>)"
  using assms by (simp add: mergeArticles_def Let_def)

lemma sort_key_append_sorted:
  "sort_key f (xs @ sort_key f ys) = sort_key f (xs @ ys)"
proof -
  have "sort_key f (xs @ zs) = foldr (insort_key f) xs (sort_key f zs)" for zs
    by (induction xs) auto
  then show ?thesis
    by (simp add: sort_key_id_if_sorted)
qed

lemma sortByClaps_sorted:
  "sorted_wrt (\<lambda>a b. clapsOr0 (h a) \<ge> clapsOr0 (h b)) (sortByClaps h xs)"
proof -
  have "sorted (map (\<lambda>r. - clapsOr0 (h r)) (sortByClaps h xs))"
    by (simp add: sortByClaps_def)
  then show ?thesis
    by (simp add: sorted_map sorted_wrt_iff_nth_less)
qed

lemma distinct_map_sortByClaps:
  "distinct (map u (sortByClaps h xs)) = distinct (map u xs)"
  by (simp add: sortByClaps_def distinct_map)

lemma set_sortByClaps: "set (sortByClaps h xs) = set xs"
  by (simp add: sortByClaps_def)

lemma mset_sortByClaps: "mset (sortByClaps h xs) = mset xs"
  by (simp add: sortByClaps_def)

lemma sortByClaps_append_sorted:
  "sortByClaps h (xs @ sortByClaps h ys) = sortByClaps h (xs @ ys)"
  by (simp add: sortByClaps_def sort_key_append_sorted)

lemma sortByClaps_cong:
  "(\<And>r. claps (g r) = claps (h r)) \<Longrightarrow> sortByClaps g xs = sortByClaps h xs"
  by (simp add: sortByClaps_def clapsOr0_def)

lemma eraseCreatedAt_fields:
  "eraseCreatedAt a = eraseCreatedAt b \<Longrightarrow> url a = url b \<and> claps a = claps b"
  by (metis (no_types) eraseCreatedAt_def Article.select_convs(1,4) Article.surjective Article.update_convs(3))

text \<open>
  A record of the merged collection whose URL occurs in the fresh batch is one of the fresh
  objects: the existing record of that URL is updated in the store and then left out.
\<close>

lemma mergeArticles_shared_url_is_fresh:
  assumes "mergeArticles h ex new tg = (h', res)"
      and "r \<in> set (merged res)"
      and "url (h r) \<in> (\<lambda>n. url (h n)) ` set new"
  shows "r \<in> set new \<and> title (h' r) = title (h r) \<and> createdAt (h' r) = createdAt (h r)"
proof -
  obtain g nc uc where fe:
    "forEachNew (Map_of (map (\<lambda>a. (url (h a), a)) (existingArticlesOf ex tg))) new (h, 0, 0) = (g, nc, uc)"
    by (metis prod_cases3)
  have u: "url (g x) = url (h x) \<and> title (g x) = title (h x) \<and> createdAt (g x) = createdAt (h x)" for x
    using forEachNew_frame [OF fe] by simp
  from assms(1) have h': "h' = g"
    and m: "merged res = sortByClaps g (new @ filter (\<lambda>e. \<not> list_ex (\<lambda>n. url (g n) = url (g e)) new) (existingArticlesOf ex tg))"
    unfolding mergeArticles_eq [OF fe] by auto
  from assms(2,3) have "r \<in> set new"
    unfolding m set_sortByClaps by (auto simp: list_ex_iff u)
  then show ?thesis
    by (simp add: h' u)
qed

text \<open>
  \<^bold>\<open>C1\<close> (the code departs from the claim). The store holds the record \<open>exOld\<close> for a URL
  and the fresh batch holds \<open>exFresh\<close> for the same URL. The existing object receives the
  fresh counters in place (address 0 afterwards), but the returned collection is built from
  the fresh batch and leaves that object out: the record returned for the URL is the fresh
  object, with the fresh title and the fresh \<^verbatim>\<open>createdAt\<close>, not the values of the existing
  record.
\<close>

theorem mergeArticles_shared_url_returns_fresh_record:
  "(case mergeArticles exHeap [''programming'' \<mapsto> [0]] [1] ''programming'' of (h', res) \<Rightarrow>
      (map h' (merged res), h' 0, newCount res, updatedCount res))
   = ([exFresh], exOld\<lparr>claps := Some 20, comments := Some 2\<rparr>, 0, 1)
   \<and> title exFresh \<noteq> title exOld \<and> createdAt exFresh \<noteq> createdAt exOld"
  by (simp add: mergeArticles_def existingArticlesOf_def Map_of_def exHeap_def exOld_def
      exFresh_def sortByClaps_def Let_def)

text \<open>
  \<^bold>\<open>C2\<close> (amended). For every store, existing collection and fresh list, the merged
  collection is sorted by claps descending with null counted as 0. It contains no URL twice
  provided that neither the fresh list nor the existing collection does.
\<close>

theorem mergeArticles_sorted_distinct:
  "case mergeArticles h existing newArticles tg of (h', res) \<Rightarrow>
     sorted_wrt (\<lambda>a b. clapsOr0 (h' a) \<ge> clapsOr0 (h' b)) (merged res) \<and>
     (distinct (map (\<lambda>r. url (h r)) newArticles) \<and>
      distinct (map (\<lambda>r. url (h r)) (existingArticlesOf existing tg))
       \<longrightarrow> distinct (map (\<lambda>r. url (h' r)) (merged res)))"
proof -
  obtain h' nc uc where fe:
    "forEachNew (Map_of (map (\<lambda>a. (url (h a), a)) (existingArticlesOf existing tg))) newArticles (h, 0, 0) = (h', nc, uc)"
    by (metis prod_cases3)
  have u: "url (h' r) = url (h r)" for r
    using forEachNew_frame [OF fe] by simp
  let ?E = "existingArticlesOf existing tg"
  let ?carried = "filter (\<lambda>e. \<not> list_ex (\<lambda>n. url (h' n) = url (h' e)) newArticles) ?E"
  have d: "distinct (map (\<lambda>r. url (h r)) (newArticles @ ?carried))"
    if "distinct (map (\<lambda>r. url (h r)) newArticles)" "distinct (map (\<lambda>r. url (h r)) ?E)"
    using that by (auto simp: distinct_map_filter list_ex_iff u)
  show ?thesis
    unfolding mergeArticles_eq [OF fe]
    using d by (simp add: sortByClaps_sorted distinct_map_sortByClaps u)
qed

text \<open>The amended C2 at the store of the example: one existing record, one fresh record.\<close>

theorem mergeArticles_sorted_distinct_witness:
  "case mergeArticles exHeap [''programming'' \<mapsto> [0]] [1] ''programming'' of (h', res) \<Rightarrow>
     sorted_wrt (\<lambda>a b. clapsOr0 (h' a) \<ge> clapsOr0 (h' b)) (merged res) \<and>
     distinct (map (\<lambda>r. url (h' r)) (merged res))"
  using mergeArticles_sorted_distinct [where h = exHeap and existing = "[''programming'' \<mapsto> [0]]"
      and newArticles = "[1]" and tg = "''programming''"]
  by (simp add: existingArticlesOf_def split: prod.splits)

text \<open>
  C2 as stated fails: a fresh list that holds a URL twice (two containers of one page that
  link the same article) is returned with both records.
\<close>

theorem mergeArticles_duplicate_urls_counterexample:
  "\<not> (case mergeArticles exHeap Map.empty [0, 1] ''programming'' of (h', res) \<Rightarrow>
        distinct (map (\<lambda>r. url (h' r)) (merged res)))"
  by (simp add: mergeArticles_def existingArticlesOf_def Map_of_def exHeap_def exOld_def
      exFresh_def sortByClaps_def clapsOr0_def Let_def)

lemma mergeArticles_disjoint:
  assumes "(\<lambda>r. url (h r)) ` set new \<inter> (\<lambda>r. url (h r)) ` set (existingArticlesOf ex tg) = {}"
  shows "mergeArticles h ex new tg =
           (h, \<lparr>merged = sortByClaps h (new @ existingArticlesOf ex tg),
                newCount = length new, updatedCount = 0\<rparr>)"
proof -
  let ?E = "existingArticlesOf ex tg"
  have "\<forall>n\<in>set new. Map_of (map (\<lambda>a. (url (h a), a)) ?E) (url (h n)) = None"
    using assms by (auto simp: Map_of_None_iff image_iff)
  then have fe: "forEachNew (Map_of (map (\<lambda>a. (url (h a), a)) ?E)) new (h, 0, 0) = (h, length new, 0)"
    using forEachNew_no_hit [of new _ h 0 0] by simp
  have "filter (\<lambda>e. \<not> list_ex (\<lambda>n. url (h n) = url (h e)) new) ?E = ?E"
    using assms by (auto simp: filter_id_conv list_ex_iff)
  then show ?thesis
    unfolding mergeArticles_eq [OF fe] by simp
qed

lemma mergeArticles_two_pass:
  assumes AB: "(\<lambda>r. url (h r)) ` set A \<inter> (\<lambda>r. url (h r)) ` set B = {}"
      and AE: "(\<lambda>r. url (h r)) ` set A \<inter> (\<lambda>r. url (h r)) ` set (existingArticlesOf existing tg) = {}"
      and BE: "(\<lambda>r. url (h r)) ` set B \<inter> (\<lambda>r. url (h r)) ` set (existingArticlesOf existing tg) = {}"
  shows "(case mergeArticles h existing A tg of (h1, r1) \<Rightarrow>
           mergeArticles h1 (existing(tg \<mapsto> merged r1)) B tg) =
         (h, \<lparr>merged = sortByClaps h (B @ A @ existingArticlesOf existing tg),
              newCount = length B, updatedCount = 0\<rparr>)"
proof -
  let ?E = "existingArticlesOf existing tg"
  let ?M = "sortByClaps h (A @ ?E)"
  have 1: "mergeArticles h existing A tg = (h, \<lparr>merged = ?M, newCount = length A, updatedCount = 0\<rparr>)"
    using mergeArticles_disjoint [OF AE] .
  have E2: "existingArticlesOf (existing(tg \<mapsto> ?M)) tg = ?M"
    by (simp add: existingArticlesOf_def)
  have "(\<lambda>r. url (h r)) ` set B \<inter> (\<lambda>r. url (h r)) ` set (existingArticlesOf (existing(tg \<mapsto> ?M)) tg) = {}"
    unfolding E2 set_sortByClaps using AB BE by auto
  from mergeArticles_disjoint [OF this]
  show ?thesis
    unfolding 1 by (simp add: E2 sortByClaps_append_sorted)
qed

text \<open>
  \<^bold>\<open>C4\<close> (amended). Let the URLs of the batches \<open>A\<close> and \<open>B\<close> be disjoint from each other
  and from the existing collection. Merging \<open>A\<close> and then \<open>B\<close> gives, aside from
  \<^verbatim>\<open>createdAt\<close>, the same collection as merging in one pass the batch that lists the
  records of \<open>B\<close> before those of \<open>A\<close>. For the union in any other order \<open>U\<close> the one-pass
  result holds the same records, sorted by claps descending; records with equal claps may
  come in another order. The one-pass store \<open>g\<close> may differ from \<open>h\<close> in \<^verbatim>\<open>createdAt\<close>.
\<close>

theorem mergeArticles_two_batches:
  assumes AB: "(\<lambda>r. url (h r)) ` set A \<inter> (\<lambda>r. url (h r)) ` set B = {}"
      and AE: "(\<lambda>r. url (h r)) ` set A \<inter> (\<lambda>r. url (h r)) ` set (existingArticlesOf existing tg) = {}"
      and BE: "(\<lambda>r. url (h r)) ` set B \<inter> (\<lambda>r. url (h r)) ` set (existingArticlesOf existing tg) = {}"
      and g: "\<forall>r. eraseCreatedAt (g r) = eraseCreatedAt (h r)"
  shows "case mergeArticles h existing A tg of (h1, r1) \<Rightarrow>
         case mergeArticles h1 (existing(tg \<mapsto> merged r1)) B tg of (h2, r2) \<Rightarrow>
           (case mergeArticles g existing (B @ A) tg of (g', r3) \<Rightarrow>
              collection g' (merged r3) = collection h2 (merged r2)) \<and>
           (\<forall>U. mset U = mset A + mset B \<longrightarrow>
              (case mergeArticles g existing U tg of (g', r3) \<Rightarrow>
                 mset (collection g' (merged r3)) = mset (collection h2 (merged r2)) \<and>
                 sorted_wrt (\<lambda>a b. clapsOr0 a \<ge> clapsOr0 b) (collection g' (merged r3))))"
proof -
  let ?E = "existingArticlesOf existing tg"
  have gu: "url (g r) = url (h r)" and gc: "claps (g r) = claps (h r)" for r
    using g eraseCreatedAt_fields [of "g r" "h r"] by auto
  have two: "(case mergeArticles h existing A tg of (h1, r1) \<Rightarrow>
           mergeArticles h1 (existing(tg \<mapsto> merged r1)) B tg) =
         (h, \<lparr>merged = sortByClaps h (B @ A @ ?E), newCount = length B, updatedCount = 0\<rparr>)"
    using mergeArticles_two_pass [OF AB AE BE] .
  have one: "mergeArticles g existing U tg =
      (g, \<lparr>merged = sortByClaps h (U @ ?E), newCount = length U, updatedCount = 0\<rparr>)"
    if "set U = set A \<union> set B" for U
  proof -
    have "(\<lambda>r. url (g r)) ` set U \<inter> (\<lambda>r. url (g r)) ` set ?E = {}"
      using that AE BE by (auto simp: gu)
    from mergeArticles_disjoint [OF this] show ?thesis
      by (simp add: sortByClaps_cong [of g h, OF gc])
  qed
  have cg: "collection g xs = collection h xs" for xs
    using g by (simp add: collection_def)
  have ec: "clapsOr0 (eraseCreatedAt a) = clapsOr0 a" for a
    by (simp add: clapsOr0_def eraseCreatedAt_def)
  have srt: "sorted_wrt (\<lambda>a b. clapsOr0 a \<ge> clapsOr0 b) (collection h (sortByClaps h xs))" for xs
    using sortByClaps_sorted [of h xs]
    by (simp add: collection_def sorted_wrt_map ec)
  have part1: "case mergeArticles g existing (B @ A) tg of (g', r3) \<Rightarrow>
              collection g' (merged r3) = collection h (sortByClaps h (B @ A @ ?E))"
    using one [of "B @ A"] by (simp add: cg Un_commute)
  have part2: "case mergeArticles g existing U tg of (g', r3) \<Rightarrow>
                 mset (collection g' (merged r3)) = mset (collection h (sortByClaps h (B @ A @ ?E))) \<and>
                 sorted_wrt (\<lambda>a b. clapsOr0 a \<ge> clapsOr0 b) (collection g' (merged r3))"
    if U: "mset U = mset A + mset B" for U
  proof -
    have "set U = set A \<union> set B"
      using U by (metis set_mset_mset set_mset_union)
    from one [OF this] show ?thesis
      using U by (simp add: cg srt) (simp add: collection_def mset_sortByClaps)
  qed
  obtain h1 r1 where m1: "mergeArticles h existing A tg = (h1, r1)"
    by (cases "mergeArticles h existing A tg")
  obtain h2 r2 where m2: "mergeArticles h1 (existing(tg \<mapsto> merged r1)) B tg = (h2, r2)"
    by (cases "mergeArticles h1 (existing(tg \<mapsto> merged r1)) B tg")
  from two m1 m2 have h2: "h2 = h" and r2: "merged r2 = sortByClaps h (B @ A @ ?E)"
    by auto
  show ?thesis
    using part1 part2 by (simp add: m1 m2 h2 r2)
qed

text \<open>
  The amended C4 at two batches of one record each, with equal claps and an empty existing
  collection; the one-pass store carries later \<^verbatim>\<open>createdAt\<close> stamps.
\<close>

theorem mergeArticles_two_batches_witness:
  "(case mergeArticles tieHeap Map.empty [0] ''programming'' of (h1, r1) \<Rightarrow>
    case mergeArticles h1 (Map.empty(''programming'' \<mapsto> merged r1)) [1] ''programming'' of (h2, r2) \<Rightarrow>
      (case mergeArticles tieHeapLater Map.empty ([1] @ [0]) ''programming'' of (g', r3) \<Rightarrow>
         collection g' (merged r3) = collection h2 (merged r2)) \<and>
      (case mergeArticles tieHeapLater Map.empty [0, 1] ''programming'' of (g', r3) \<Rightarrow>
         mset (collection g' (merged r3)) = mset (collection h2 (merged r2)) \<and>
         sorted_wrt (\<lambda>a b. clapsOr0 a \<ge> clapsOr0 b) (collection g' (merged r3))))"
proof -
  have AB: "(\<lambda>r. url (tieHeap r)) ` set [0] \<inter> (\<lambda>r. url (tieHeap r)) ` set [1] = {}"
    by (simp add: tieHeap_def tieA_def tieB_def)
  have AE: "(\<lambda>r. url (tieHeap r)) ` set [0] \<inter>
            (\<lambda>r. url (tieHeap r)) ` set (existingArticlesOf Map.empty ''programming'') = {}"
    by (simp add: existingArticlesOf_def)
  have BE: "(\<lambda>r. url (tieHeap r)) ` set [1] \<inter>
            (\<lambda>r. url (tieHeap r)) ` set (existingArticlesOf Map.empty ''programming'') = {}"
    by (simp add: existingArticlesOf_def)
  have g: "\<forall>r. eraseCreatedAt (tieHeapLater r) = eraseCreatedAt (tieHeap r)"
    by (simp add: tieHeapLater_def eraseCreatedAt_def)
  have U: "mset [0, 1::nat] = mset [0] + mset [1]"
    by simp
  obtain h1 r1 where m1: "mergeArticles tieHeap Map.empty [0] ''programming'' = (h1, r1)"
    by (cases "mergeArticles tieHeap Map.empty [0] ''programming''")
  obtain h2 r2 where m2:
    "mergeArticles h1 (Map.empty(''programming'' \<mapsto> merged r1)) [1] ''programming'' = (h2, r2)"
    by (cases "mergeArticles h1 (Map.empty(''programming'' \<mapsto> merged r1)) [1] ''programming''")
  note t = mergeArticles_two_batches [OF AB AE BE g, unfolded m1 m2 prod.case]
  show ?thesis
    unfolding m1 m2 prod.case
    using t [THEN conjunct1] t [THEN conjunct2, rule_format, OF U] by (simp only: simp_thms)
qed

text \<open>
  C4 as stated fails when the union lists the records of \<open>A\<close> before those of \<open>B\<close> and
  two of them have equal claps: merging \<open>A\<close> then \<open>B\<close> returns the record of \<open>B\<close> first, the
  one-pass merge returns the record of \<open>A\<close> first.
\<close>

theorem mergeArticles_batch_order_counterexample:
  "(case mergeArticles tieHeap Map.empty [0] ''programming'' of (h1, r1) \<Rightarrow>
    case mergeArticles h1 (Map.empty(''programming'' \<mapsto> merged r1)) [1] ''programming'' of (h2, r2) \<Rightarrow>
      collection h2 (merged r2))
   \<noteq> (case mergeArticles tieHeap Map.empty ([0] @ [1]) ''programming'' of (g', r3) \<Rightarrow>
         collection g' (merged r3))"
  by (simp add: mergeArticles_def existingArticlesOf_def Map_of_def tieHeap_def tieA_def
      tieB_def sortByClaps_def clapsOr0_def collection_def eraseCreatedAt_def Let_def)

end
